theory Spec2Isabelle
  imports Main "HOL-Library.AList" "HOL-Library.FSet" "HOL-Library.Sublist"
begin

section \<open>Connection registry (app/core/websocket.py)\<close>

text \<open>
  Identifiers are Python ints. A WebSocket object is known to the registry only by its
  identity, so a connection is a natural number naming the object. Timestamps are the
  microseconds of a naive UTC \<^verbatim>\<open>datetime\<close> since the epoch.
\<close>

type_synonym user_id = int
type_synonym conversation_id = int
type_synonym websocket = nat
type_synonym datetime = int

text \<open>
  The payloads built by \<^verbatim>\<open>broadcast_user_status\<close> and
  \<^verbatim>\<open>broadcast_typing_status\<close>: the dict with key \<^verbatim>\<open>type\<close> equal to
  \<^verbatim>\<open>user_status\<close> carries user id, status and timestamp, the one with
  \<^verbatim>\<open>typing\<close> carries conversation id, user id, the flag and the timestamp.
\<close>

datatype event =
    UserStatus user_id string datetime
  | Typing conversation_id user_id bool datetime

text \<open>
  \<^verbatim>\<open>ConnectionManager\<close>. Both dicts are association lists in insertion order (the
  order in which Python iterates a dict); the two Python sets are finite sets.
\<close>

record connection_manager =
  active_connections :: "(user_id \<times> websocket list) list"
  online_users :: "user_id fset"
  typing_users :: "(conversation_id \<times> user_id fset) list"

definition manager :: connection_manager where
  "manager = \<lparr>active_connections = [], online_users = {||}, typing_users = []\<rparr>"

text \<open>
  \<^verbatim>\<open>disconnect\<close>: \<^verbatim>\<open>list.remove\<close> deletes the first occurrence; the
  key is deleted and the user discarded from the online set once the list is empty.
\<close>

definition disconnect :: "websocket \<Rightarrow> user_id \<Rightarrow> connection_manager \<Rightarrow> connection_manager" where
  "disconnect ws uid m =
     (case map_of (active_connections m) uid of
        None \<Rightarrow> m
      | Some conns \<Rightarrow>
          (let conns' = (if ws \<in> set conns then remove1 ws conns else conns) in
           if conns' = []
           then m\<lparr>active_connections := AList.delete uid (active_connections m),
                  online_users := online_users m |-| {|uid|}\<rparr>
           else m\<lparr>active_connections := AList.update uid conns' (active_connections m)\<rparr>))"

text \<open>
  \<^verbatim>\<open>send_personal_message\<close>. Whether \<^verbatim>\<open>send_text\<close> raises on a connection is
  given by the predicate \<open>broken\<close>. A connection on which it raises gets nothing and is
  collected in \<^verbatim>\<open>disconnected\<close>; after the loop each collected connection is passed
  to \<open>disconnect\<close>. The first component of the result is the list of deliveries made,
  in order.
\<close>

definition send_personal_message ::
  "(websocket \<Rightarrow> bool) \<Rightarrow> event \<Rightarrow> user_id \<Rightarrow> connection_manager
     \<Rightarrow> (websocket \<times> event) list \<times> connection_manager" where
  "send_personal_message broken message uid m =
     (case map_of (active_connections m) uid of
        None \<Rightarrow> ([], m)
      | Some conns \<Rightarrow>
          (let disconnected = filter broken conns;
               delivered = map (\<lambda>c. (c, message)) (filter (\<lambda>c. \<not> broken c) conns)
           in (delivered, fold (\<lambda>conn. disconnect conn uid) disconnected m)))"

text \<open>The loop \<^verbatim>\<open>for uid in ...: await self.send_personal_message(message, uid)\<close>.\<close>

fun send_each ::
  "(websocket \<Rightarrow> bool) \<Rightarrow> event \<Rightarrow> user_id list \<Rightarrow> connection_manager
     \<Rightarrow> (websocket \<times> event) list \<times> connection_manager" where
  "send_each broken message [] m = ([], m)"
| "send_each broken message (uid # uids) m =
     (case send_personal_message broken message uid m of
        (d1, m1) \<Rightarrow>
          (case send_each broken message uids m1 of
             (d2, m2) \<Rightarrow> (d1 @ d2, m2)))"

text \<open>
  \<^verbatim>\<open>send_to_conversation\<close>: the sender is skipped when \<^verbatim>\<open>exclude_sender\<close> is
  set; \<^verbatim>\<open>sender_id\<close> defaults to \<^verbatim>\<open>None\<close>, which equals no user id.
\<close>

definition send_to_conversation ::
  "(websocket \<Rightarrow> bool) \<Rightarrow> event \<Rightarrow> user_id list \<Rightarrow> bool \<Rightarrow> user_id option
     \<Rightarrow> connection_manager \<Rightarrow> (websocket \<times> event) list \<times> connection_manager" where
  "send_to_conversation broken message participant_ids exclude_sender sender_id m =
     send_each broken message
       (filter (\<lambda>uid. \<not> (exclude_sender \<and> Some uid = sender_id)) participant_ids) m"

text \<open>\<^verbatim>\<open>broadcast_user_status\<close> walks a snapshot of the keys of the dict.\<close>

definition broadcast_user_status ::
  "(websocket \<Rightarrow> bool) \<Rightarrow> datetime \<Rightarrow> user_id \<Rightarrow> string \<Rightarrow> connection_manager
     \<Rightarrow> (websocket \<times> event) list \<times> connection_manager" where
  "broadcast_user_status broken now uid status m =
     send_each broken (UserStatus uid status now) (map fst (active_connections m)) m"

text \<open>
  \<^verbatim>\<open>connect\<close>, once \<^verbatim>\<open>websocket.accept()\<close> has returned: the connection is
  appended to the user's list (created empty when the key is absent), the user is added to the
  online set, and the status broadcast follows with no condition on the length of the list.
  Each call runs to its end before the next one starts.
\<close>

definition connect ::
  "(websocket \<Rightarrow> bool) \<Rightarrow> datetime \<Rightarrow> websocket \<Rightarrow> user_id \<Rightarrow> connection_manager
     \<Rightarrow> (websocket \<times> event) list \<times> connection_manager" where
  "connect broken now ws uid m =
     (let conns = (case map_of (active_connections m) uid of None \<Rightarrow> [] | Some cs \<Rightarrow> cs);
          m1 = m\<lparr>active_connections := AList.update uid (conns @ [ws]) (active_connections m),
                 online_users := finsert uid (online_users m)\<rparr>
      in broadcast_user_status broken now uid ''online'' m1)"

text \<open>The first half of \<^verbatim>\<open>broadcast_typing_status\<close>: the update of the typing dict.\<close>

definition set_typing ::
  "conversation_id \<Rightarrow> user_id \<Rightarrow> bool \<Rightarrow> (conversation_id \<times> user_id fset) list
     \<Rightarrow> (conversation_id \<times> user_id fset) list" where
  "set_typing cid uid is_typing tu =
     (if is_typing
      then (let cur = (case map_of tu cid of None \<Rightarrow> {||} | Some s \<Rightarrow> s)
            in AList.update cid (finsert uid cur) tu)
      else (case map_of tu cid of
              None \<Rightarrow> tu
            | Some s \<Rightarrow>
                (let s' = s |-| {|uid|} in
                 if s' = {||} then AList.delete cid tu else AList.update cid s' tu)))"

definition broadcast_typing_status ::
  "(websocket \<Rightarrow> bool) \<Rightarrow> datetime \<Rightarrow> conversation_id \<Rightarrow> user_id \<Rightarrow> bool \<Rightarrow> user_id list
     \<Rightarrow> connection_manager \<Rightarrow> (websocket \<times> event) list \<times> connection_manager" where
  "broadcast_typing_status broken now cid uid is_typing participant_ids m =
     (let m1 = m\<lparr>typing_users := set_typing cid uid is_typing (typing_users m)\<rparr>
      in send_each broken (Typing cid uid is_typing now)
           (filter (\<lambda>p. p \<noteq> uid) participant_ids) m1)"

definition is_user_online :: "connection_manager \<Rightarrow> user_id \<Rightarrow> bool" where
  "is_user_online m uid = (uid |\<in>| online_users m)"

text \<open>
  \<^verbatim>\<open>get_typing_users\<close>: \<^verbatim>\<open>list(set)\<close> lists every member once, in an order
  Python does not fix; the sorted enumeration stands for it.
\<close>

definition get_typing_users :: "connection_manager \<Rightarrow> conversation_id \<Rightarrow> user_id list" where
  "get_typing_users m cid =
     sorted_list_of_fset (case map_of (typing_users m) cid of None \<Rightarrow> {||} | Some s \<Rightarrow> s)"

text \<open>Calls on the registry, and a finite sequence of them run from a given state.\<close>

datatype registry_call =
    Connect "websocket \<Rightarrow> bool" datetime websocket user_id
  | Disconnect websocket user_id
  | SendPersonalMessage "websocket \<Rightarrow> bool" event user_id
  | SendToConversation "websocket \<Rightarrow> bool" event "user_id list" bool "user_id option"
  | BroadcastUserStatus "websocket \<Rightarrow> bool" datetime user_id string
  | BroadcastTypingStatus "websocket \<Rightarrow> bool" datetime conversation_id user_id bool "user_id list"

fun registry_step :: "registry_call \<Rightarrow> connection_manager \<Rightarrow> connection_manager" where
  "registry_step (Connect broken now ws uid) m = snd (connect broken now ws uid m)"
| "registry_step (Disconnect ws uid) m = disconnect ws uid m"
| "registry_step (SendPersonalMessage broken ev uid) m = snd (send_personal_message broken ev uid m)"
| "registry_step (SendToConversation broken ev ps ex sid) m =
     snd (send_to_conversation broken ev ps ex sid m)"
| "registry_step (BroadcastUserStatus broken now uid status) m =
     snd (broadcast_user_status broken now uid status m)"
| "registry_step (BroadcastTypingStatus broken now cid uid is_typing ps) m =
     snd (broadcast_typing_status broken now cid uid is_typing ps m)"

definition run_registry :: "registry_call list \<Rightarrow> connection_manager \<Rightarrow> connection_manager" where
  "run_registry calls m = fold registry_step calls m"

text \<open>
  The state the registry keeps between calls: a user is in the online set exactly when the
  dict has a key for the user, and no key is bound to an empty list.
\<close>

definition registry_inv :: "connection_manager \<Rightarrow> bool" where
  "registry_inv m \<longleftrightarrow>
     (\<forall>u. u |\<in>| online_users m \<longleftrightarrow> (\<exists>cs. map_of (active_connections m) u = Some cs)) \<and>
     (\<forall>u cs. map_of (active_connections m) u = Some cs \<longrightarrow> cs \<noteq> [])"

text \<open>
  The connections of a user on which a send succeeds: those a call of
  \<^verbatim>\<open>send_personal_message\<close> delivers to.
\<close>

definition live :: "(websocket \<Rightarrow> bool) \<Rightarrow> connection_manager \<Rightarrow> user_id \<Rightarrow> websocket list" where
  "live broken m uid =
     (case map_of (active_connections m) uid of
        None \<Rightarrow> []
      | Some conns \<Rightarrow> filter (\<lambda>c. \<not> broken c) conns)"

text \<open>The transport in which no send raises.\<close>

definition no_failures :: "websocket \<Rightarrow> bool" where
  "no_failures c = False"

text \<open>No key of the typing dict is bound to the empty set.\<close>

definition typing_inv :: "connection_manager \<Rightarrow> bool" where
  "typing_inv m \<longleftrightarrow> (\<forall>(c, s) \<in> set (typing_users m). s \<noteq> {||})"

section \<open>Response classifier (app/services/bot_service.py)\<close>

text \<open>
  Text is a list of characters with code points 0 to 255. On these,
  \<^verbatim>\<open>str.lower\<close> moves \<^verbatim>\<open>A-Z\<close> and the capital letters 192 to 222 (215,
  the multiplication sign, apart) up by 32, and the white space of \<^verbatim>\<open>str.strip\<close> and
  \<^verbatim>\<open>str.split\<close> is 9 to 13, 28 to 32, 133 and 160.
\<close>

definition lower_char :: "char \<Rightarrow> char" where
  "lower_char c =
     (let n = (of_char c :: nat) in
      if (65 \<le> n \<and> n \<le> 90) \<or> (192 \<le> n \<and> n \<le> 222 \<and> n \<noteq> 215)
      then char_of (n + 32) else c)"

definition lower :: "string \<Rightarrow> string" where
  "lower s = map lower_char s"

definition isspace :: "char \<Rightarrow> bool" where
  "isspace c =
     (let n = (of_char c :: nat) in
      (9 \<le> n \<and> n \<le> 13) \<or> (28 \<le> n \<and> n \<le> 32) \<or> n = 133 \<or> n = 160)"

definition strip :: "string \<Rightarrow> string" where
  "strip s = rev (dropWhile isspace (rev (dropWhile isspace s)))"

text \<open>
  \<^verbatim>\<open>str.split()\<close> with no argument: the maximal runs of characters that are not
  white space. \<open>cur\<close> is the run being read.
\<close>

fun split_from :: "string \<Rightarrow> string \<Rightarrow> string list" where
  "split_from cur [] = (if cur = [] then [] else [cur])"
| "split_from cur (c # cs) =
     (if isspace c
      then (if cur = [] then split_from [] cs else cur # split_from [] cs)
      else split_from (cur @ [c]) cs)"

definition split :: "string \<Rightarrow> string list" where
  "split s = split_from [] s"

text \<open>\<^verbatim>\<open>word in text\<close> on two strings: \<open>word\<close> occurs in \<open>text\<close> as a contiguous run.\<close>

fun contains :: "string \<Rightarrow> string \<Rightarrow> bool" where
  "contains [] word = (word = [])"
| "contains (c # cs) word = (take (length word) (c # cs) = word \<or> contains cs word)"

datatype response_type = Greeting | Thanks | Question | General | Default

text \<open>The three lists of literals tested in \<^verbatim>\<open>_generate_message_response\<close>.\<close>

definition greeting_words :: "string list" where
  "greeting_words =
     [''hello'', ''hi'', ''hey'', ''greetings'', ''good morning'', ''good afternoon'',
      ''good evening'']"

definition thanks_words :: "string list" where
  "thanks_words = [''thanks'', ''thank you'', ''thx'', ''ty'', ''appreciate'']"

definition question_words :: "string list" where
  "question_words = [''?'', ''how'', ''what'', ''why'', ''when'', ''where'', ''who'']"

text \<open>The choice of \<^verbatim>\<open>response_type\<close> in \<^verbatim>\<open>_generate_message_response\<close>.\<close>

definition classify :: "string \<Rightarrow> response_type" where
  "classify message_content =
     (let content_lower = strip (lower message_content) in
      if list_ex (\<lambda>word. contains content_lower word) greeting_words then Greeting
      else if list_ex (\<lambda>word. contains content_lower word) thanks_words then Thanks
      else if list_ex (\<lambda>char. contains content_lower char) question_words then Question
      else if 3 < length (split content_lower) then General
      else Default)"

section \<open>Realtime protocol handler (app/routes/websocket.py)\<close>

text \<open>
  The value \<^verbatim>\<open>json.loads\<close> returns: \<^verbatim>\<open>None\<close>, a bool, an int, a str, a list
  or a dict (an association list with the keys of the dict). Numbers with a fraction or an
  exponent are left out.
\<close>

datatype json =
    JNull
  | JBool bool
  | JInt int
  | JStr string
  | JArr "json list"
  | JObj "(string \<times> json) list"

text \<open>The text of a frame after \<^verbatim>\<open>json.loads\<close>: the exception or the value.\<close>

datatype decoded = JSONDecodeError | Decoded json

text \<open>\<^verbatim>\<open>d.get(key, default)\<close> on a dict.\<close>

definition dict_get :: "(string \<times> json) list \<Rightarrow> string \<Rightarrow> json \<Rightarrow> json" where
  "dict_get d key dflt = (case map_of d key of None \<Rightarrow> dflt | Some v \<Rightarrow> v)"

text \<open>Python truth value, as \<^verbatim>\<open>not x\<close> tests it.\<close>

fun truthy :: "json \<Rightarrow> bool" where
  "truthy JNull = False"
| "truthy (JBool b) = b"
| "truthy (JInt n) = (n \<noteq> 0)"
| "truthy (JStr s) = (s \<noteq> [])"
| "truthy (JArr xs) = (xs \<noteq> [])"
| "truthy (JObj kvs) = (kvs \<noteq> [])"

text \<open>
  The \<^verbatim>\<open>message\<close> field of an error event. Each constructor is one text of the source:
  \<^verbatim>\<open>Missing conversation_id or content\<close>, \<^verbatim>\<open>Unknown message type: \<close> followed by
  the value of \<^verbatim>\<open>message_type\<close>, \<^verbatim>\<open>Invalid JSON format\<close> and
  \<^verbatim>\<open>Internal server error\<close>.
\<close>

datatype error_message =
    MissingConversationIdOrContent
  | UnknownMessageType json
  | InvalidJSONFormat
  | InternalServerError

text \<open>What the handler sends on its own connection with \<^verbatim>\<open>websocket.send_json\<close>.\<close>

datatype reply = ErrorReply error_message | Pong

datatype connection_state = OPEN | CLOSED

text \<open>
  What one turn of the receive loop does with a frame, up to the first call into the message
  service or the registry:
  \<^item> \<open>Replied r st\<close>: one \<^verbatim>\<open>send_json\<close> of \<open>r\<close> on the own connection, nothing
    else; \<open>st\<close> is the state of the connection afterwards;
  \<^item> \<open>Ignored\<close>: \<^verbatim>\<open>continue\<close> with nothing sent to anybody, the loop goes on;
  \<^item> \<open>CreateMessage cid content\<close>, \<open>TypingStatus cid is_typing\<close>, \<open>MarkRead cid\<close>: the
    frame is well formed and is handed to \<^verbatim>\<open>create_message\<close>,
    \<^verbatim>\<open>broadcast_typing_status\<close> or \<^verbatim>\<open>mark_messages_as_read\<close>.
\<close>

datatype turn =
    Replied reply connection_state
  | Ignored
  | CreateMessage json string
  | TypingStatus json json
  | MarkRead json

text \<open>
  \<^verbatim>\<open>await websocket.send_json(r)\<close> where the loop sends a reply. \<open>send_ok\<close> tells
  whether the transport takes the frame. When it does not, the exception leaves the inner
  \<^verbatim>\<open>try\<close> (its handler sends again and fails again), the outer handler calls
  \<^verbatim>\<open>disconnect\<close> and the endpoint returns.
\<close>

definition send_json :: "bool \<Rightarrow> reply \<Rightarrow> turn" where
  "send_json send_ok r = Replied r (if send_ok then OPEN else CLOSED)"

text \<open>\<^verbatim>\<open>message_data.get("content", "").strip()\<close>: only a str has \<^verbatim>\<open>strip\<close>.\<close>

definition content_of :: "(string \<times> json) list \<Rightarrow> string option" where
  "content_of d =
     (case dict_get d ''content'' (JStr '''') of
        JStr s \<Rightarrow> Some (strip s)
      | _ \<Rightarrow> None)"

text \<open>The body of the receive loop for one frame.\<close>

definition handle_frame :: "bool \<Rightarrow> decoded \<Rightarrow> turn" where
  "handle_frame send_ok data =
     (case data of
        JSONDecodeError \<Rightarrow> send_json send_ok (ErrorReply InvalidJSONFormat)
      | Decoded (JObj message_data) \<Rightarrow>
          (let message_type = dict_get message_data ''type'' JNull in
           if message_type = JStr ''message'' then
             (let conversation_id = dict_get message_data ''conversation_id'' JNull in
              case content_of message_data of
                None \<Rightarrow> send_json send_ok (ErrorReply InternalServerError)
              | Some content \<Rightarrow>
                  if \<not> truthy conversation_id \<or> content = []
                  then send_json send_ok (ErrorReply MissingConversationIdOrContent)
                  else CreateMessage conversation_id content)
           else if message_type = JStr ''typing'' then
             (let conversation_id = dict_get message_data ''conversation_id'' JNull;
                  is_typing = dict_get message_data ''is_typing'' (JBool False)
              in if \<not> truthy conversation_id then Ignored
                 else TypingStatus conversation_id is_typing)
           else if message_type = JStr ''read'' then
             (let conversation_id = dict_get message_data ''conversation_id'' JNull
              in if \<not> truthy conversation_id then Ignored
                 else MarkRead conversation_id)
           else if message_type = JStr ''ping'' then send_json send_ok Pong
           else send_json send_ok (ErrorReply (UnknownMessageType message_type)))
      | Decoded _ \<Rightarrow> send_json send_ok (ErrorReply InternalServerError))"

section \<open>Tables (app/models)\<close>

text \<open>
  A row of each table, with the columns the functions below read or write; the other
  columns are left out. Keys are Python ints. \<^verbatim>\<open>u_\<close> is \<^verbatim>\<open>User\<close>,
  \<^verbatim>\<open>conv_\<close> is \<^verbatim>\<open>Conversation\<close>, \<^verbatim>\<open>cp_\<close> is
  \<^verbatim>\<open>ConversationParticipant\<close>, \<^verbatim>\<open>msg_\<close> is \<^verbatim>\<open>Message\<close>,
  \<^verbatim>\<open>bot_\<close> is \<^verbatim>\<open>Bot\<close> and \<^verbatim>\<open>act_\<close> is \<^verbatim>\<open>BotActivity\<close>.
\<close>

datatype conversation_type = DIRECT | GROUP

datatype bot_personality =
  FRIENDLY | PROFESSIONAL | HUMOROUS | EDUCATIONAL | ENTHUSIAST | CREATIVE | ANALYTICAL

datatype bot_activity_type =
  POST | COMMENT | MESSAGE | COMMUNITY_CREATE | COMMUNITY_JOIN | PRODUCT_LIST | REACT

record user =
  u_id :: int
  u_is_bot :: bool

record conversation =
  conv_id :: int
  conv_type :: conversation_type
  conv_created_by_id :: "int option"

record conversation_participant =
  cp_id :: int
  cp_conversation_id :: int
  cp_user_id :: int
  cp_is_active :: bool

record message =
  msg_id :: int
  msg_conversation_id :: int
  msg_sender_id :: int
  msg_content :: string
  msg_created_at :: int
  msg_is_deleted :: bool

record bot =
  bot_id :: int
  bot_user_id :: int
  bot_personality :: "bot_personality option"
  bot_is_active :: bool
  bot_activity_frequency :: int
  bot_max_daily_activities :: int
  bot_can_post :: bool
  bot_can_message :: bool
  bot_can_list_products :: bool
  bot_total_messages :: int
  bot_last_activity_at :: "int option"

record bot_activity =
  act_id :: int
  act_bot_id :: int
  act_activity_type :: bot_activity_type
  act_message_id :: "int option"
  act_success :: bool
  act_created_at :: int

text \<open>The database a \<^verbatim>\<open>Session\<close> works on: each table is the list of its rows.\<close>

record session =
  users :: "user list"
  conversations :: "conversation list"
  participants :: "conversation_participant list"
  messages :: "message list"
  bots :: "bot list"
  bot_activities :: "bot_activity list"

text \<open>
  The key an insert gives a row with no key of its own: a value the table does not hold,
  here one more than the greatest key, and at least 1.
\<close>

definition next_id :: "int list \<Rightarrow> int" where
  "next_id ids = fold max ids 0 + 1"

datatype py_error = AttributeError | IndexError

section \<open>Bot service (app/services/bot_service.py)\<close>

text \<open>
  \<^verbatim>\<open>now.replace(hour=0, minute=0, second=0, microsecond=0)\<close> on microseconds since
  the epoch: a day has 86400000000 of them.
\<close>

definition today_start :: "int \<Rightarrow> int" where
  "today_start now = now - now mod 86400000000"

text \<open>
  \<^verbatim>\<open>should_bot_act\<close>; \<open>now\<close> is the value of \<^verbatim>\<open>datetime.utcnow()\<close>.
  \<^verbatim>\<open>total_seconds() < activity_frequency * 60\<close> is compared in microseconds. The
  float the code compares is the nearest one to the exact quotient, which orders like the
  exact value as long as the window is shorter than \<open>2 ^ 33\<close> seconds; the schema keeps
  \<^verbatim>\<open>activity_frequency\<close> between 5 and 1440 minutes.
\<close>

definition should_bot_act :: "session \<Rightarrow> bot \<Rightarrow> int \<Rightarrow> bool" where
  "should_bot_act db b now =
     (let today_activities =
            length (filter (\<lambda>a. act_bot_id a = bot_id b \<and> today_start now \<le> act_created_at a)
                      (bot_activities db))
      in if bot_max_daily_activities b \<le> int today_activities then False
         else (case bot_last_activity_at b of
                 None \<Rightarrow> True
               | Some last_activity_at \<Rightarrow>
                   if now - last_activity_at < bot_activity_frequency b * 60 * 1000000
                   then False else True))"

text \<open>
  \<^verbatim>\<open>random.choice\<close>: \<open>rnd\<close> is the random draw; an empty list raises
  \<^verbatim>\<open>IndexError\<close>.
\<close>

definition random_choice :: "nat \<Rightarrow> 'a list \<Rightarrow> py_error + 'a" where
  "random_choice rnd xs = (if xs = [] then Inl IndexError else Inr (xs ! (rnd mod length xs)))"

text \<open>
  \<^verbatim>\<open>_generate_message_response\<close>. The table of canned replies is the parameter
  \<open>responses\<close>; a personality that is \<^verbatim>\<open>None\<close> falls back to the friendly row.
\<close>

definition generate_message_response ::
  "(bot_personality \<Rightarrow> response_type \<Rightarrow> string list) \<Rightarrow> nat \<Rightarrow> string
     \<Rightarrow> bot_personality option \<Rightarrow> py_error + string" where
  "generate_message_response responses rnd message_content personality =
     (let personality_responses =
            responses (case personality of None \<Rightarrow> FRIENDLY | Some p \<Rightarrow> p);
          response_options = personality_responses (classify message_content)
      in random_choice rnd response_options)"

text \<open>The relationship \<^verbatim>\<open>Message.sender\<close> and the join with \<^verbatim>\<open>User\<close>.\<close>

definition user_of :: "session \<Rightarrow> int \<Rightarrow> user option" where
  "user_of db uid = find (\<lambda>u. u_id u = uid) (users db)"

text \<open>
  The loop of \<^verbatim>\<open>trigger_immediate_bot_response\<close> over the bot participants: the
  first one whose \<^verbatim>\<open>Bot\<close> row is active and may message answers. \<open>utcnow k\<close> is the
  value of the \<open>k\<close>-th reading of the clock during the call: reading 0 stamps the message,
  reading 1 the activity record when it is inserted. Only \<^verbatim>\<open>total_messages\<close> of the
  bot is written.
\<close>

fun respond_first ::
  "(bot_personality \<Rightarrow> response_type \<Rightarrow> string list) \<Rightarrow> nat \<Rightarrow> (nat \<Rightarrow> int) \<Rightarrow> session
     \<Rightarrow> int \<Rightarrow> message \<Rightarrow> conversation_participant list
     \<Rightarrow> py_error + (message option \<times> session)" where
  "respond_first responses rnd utcnow db conversation_id triggering_message [] = Inr (None, db)"
| "respond_first responses rnd utcnow db conversation_id triggering_message
     (bot_participant # rest) =
     (case find (\<lambda>r. bot_user_id r = cp_user_id bot_participant \<and> bot_is_active r \<and>
                       bot_can_message r) (bots db) of
        None \<Rightarrow> respond_first responses rnd utcnow db conversation_id triggering_message rest
      | Some b \<Rightarrow>
          (case generate_message_response responses rnd (msg_content triggering_message)
                  (bot_personality b) of
             Inl e \<Rightarrow> Inl e
           | Inr response_content \<Rightarrow>
               (let response =
                      \<lparr>msg_id = next_id (map msg_id (messages db)),
                       msg_conversation_id = conversation_id,
                       msg_sender_id = bot_user_id b,
                       msg_content = response_content,
                       msg_created_at = utcnow 0,
                       msg_is_deleted = False\<rparr>;
                    activity =
                      \<lparr>act_id = next_id (map act_id (bot_activities db)),
                       act_bot_id = bot_id b,
                       act_activity_type = MESSAGE,
                       act_message_id = Some (msg_id response),
                       act_success = True,
                       act_created_at = utcnow 1\<rparr>
                in Inr (Some response,
                        db\<lparr>messages := messages db @ [response],
                           bot_activities := bot_activities db @ [activity],
                           bots := map (\<lambda>r. if bot_id r = bot_id b
                                              then r\<lparr>bot_total_messages := bot_total_messages b + 1\<rparr>
                                              else r) (bots db)\<rparr>))))"

text \<open>
  \<^verbatim>\<open>trigger_immediate_bot_response\<close>. A triggering message whose sender row is
  missing makes \<^verbatim>\<open>triggering_message.sender.is_bot\<close> raise.
\<close>

definition trigger_immediate_bot_response ::
  "(bot_personality \<Rightarrow> response_type \<Rightarrow> string list) \<Rightarrow> nat \<Rightarrow> (nat \<Rightarrow> int) \<Rightarrow> session
     \<Rightarrow> int \<Rightarrow> int \<Rightarrow> py_error + (message option \<times> session)" where
  "trigger_immediate_bot_response responses rnd utcnow db conversation_id triggering_message_id =
     (case find (\<lambda>m. msg_id m = triggering_message_id) (messages db) of
        None \<Rightarrow> Inr (None, db)
      | Some triggering_message \<Rightarrow>
          (case user_of db (msg_sender_id triggering_message) of
             None \<Rightarrow> Inl AttributeError
           | Some sender \<Rightarrow>
               if u_is_bot sender then Inr (None, db)
               else
                 (let bot_participants =
                        filter (\<lambda>cp. cp_conversation_id cp = conversation_id \<and> cp_is_active cp \<and>
                                      (case user_of db (cp_user_id cp) of
                                         None \<Rightarrow> False
                                       | Some u \<Rightarrow> u_is_bot u))
                          (participants db)
                  in if bot_participants = [] then Inr (None, db)
                     else respond_first responses rnd utcnow db conversation_id
                            triggering_message bot_participants)))"

text \<open>
  \<^verbatim>\<open>respond_to_messages\<close>. Reading 0 of the clock gives \<^verbatim>\<open>yesterday\<close>, reading 1
  stamps the message, reading 2 becomes \<^verbatim>\<open>last_activity_at\<close>, reading 3 stamps the
  activity record when the commit inserts it. \<^verbatim>\<open>order_by(created_at.desc())\<close> is a
  stable sort of the rows in table order. 24 hours are 86400000000 microseconds.
\<close>

definition respond_to_messages ::
  "(bot_personality \<Rightarrow> response_type \<Rightarrow> string list) \<Rightarrow> nat \<Rightarrow> (nat \<Rightarrow> int) \<Rightarrow> session
     \<Rightarrow> bot \<Rightarrow> py_error + (bool \<times> session)" where
  "respond_to_messages responses rnd utcnow db b =
     (if \<not> bot_can_message b then Inr (False, db)
      else
        (let bot_conversations =
               filter (\<lambda>cp. cp_user_id cp = bot_user_id b \<and> cp_is_active cp) (participants db);
             conversation_ids = map cp_conversation_id bot_conversations
         in if conversation_ids = [] then Inr (False, db)
            else
              (let yesterday = utcnow 0 - 86400000000;
                   recent_messages =
                     sort_key (\<lambda>m. - msg_created_at m)
                       (filter (\<lambda>m. msg_conversation_id m \<in> set conversation_ids \<and>
                                     msg_sender_id m \<noteq> bot_user_id b \<and>
                                     yesterday \<le> msg_created_at m \<and>
                                     \<not> msg_is_deleted m) (messages db));
                   messages_to_respond =
                     filter (\<lambda>msg. find (\<lambda>m. msg_conversation_id m = msg_conversation_id msg \<and>
                                               msg_sender_id m = bot_user_id b \<and>
                                               msg_created_at msg < msg_created_at m)
                                      (messages db) = None) recent_messages
               in case messages_to_respond of
                    [] \<Rightarrow> Inr (False, db)
                  | message_to_respond # _ \<Rightarrow>
                      (case generate_message_response responses rnd
                              (msg_content message_to_respond) (bot_personality b) of
                         Inl e \<Rightarrow> Inl e
                       | Inr response_content \<Rightarrow>
                           (let response =
                                  \<lparr>msg_id = next_id (map msg_id (messages db)),
                                   msg_conversation_id = msg_conversation_id message_to_respond,
                                   msg_sender_id = bot_user_id b,
                                   msg_content = response_content,
                                   msg_created_at = utcnow 1,
                                   msg_is_deleted = False\<rparr>;
                                activity =
                                  \<lparr>act_id = next_id (map act_id (bot_activities db)),
                                   act_bot_id = bot_id b,
                                   act_activity_type = MESSAGE,
                                   act_message_id = Some (msg_id response),
                                   act_success = True,
                                   act_created_at = utcnow 3\<rparr>
                            in Inr (True,
                                    db\<lparr>messages := messages db @ [response],
                                       bot_activities := bot_activities db @ [activity],
                                       bots := map (\<lambda>r. if bot_id r = bot_id b
                                                          then r\<lparr>bot_total_messages :=
                                                                   bot_total_messages b + 1,
                                                                 bot_last_activity_at :=
                                                                   Some (utcnow 2)\<rparr>
                                                          else r) (bots db)\<rparr>))))))"

section \<open>Message service (app/services/message_service.py)\<close>

text \<open>The user ids of \<^verbatim>\<open>[p.user_id for p in conversation.participants if p.is_active]\<close>.\<close>

definition active_participant_ids :: "session \<Rightarrow> int \<Rightarrow> int list" where
  "active_participant_ids db cid =
     map cp_user_id
       (filter (\<lambda>p. cp_conversation_id p = cid \<and> cp_is_active p) (participants db))"

text \<open>
  The query of \<^verbatim>\<open>get_or_create_direct_conversation\<close>: a direct conversation that
  has exactly two active participant rows whose user is one of the two; \<^verbatim>\<open>first()\<close>
  takes the first such conversation in table order.
\<close>

definition find_direct :: "session \<Rightarrow> int \<Rightarrow> int \<Rightarrow> conversation option" where
  "find_direct db user_id other_user_id =
     find (\<lambda>c. conv_type c = DIRECT \<and>
                length (filter (\<lambda>p. cp_conversation_id p = conv_id c \<and>
                                      cp_user_id p \<in> set [user_id, other_user_id] \<and>
                                      cp_is_active p) (participants db)) = 2)
       (conversations db)"

text \<open>The second half of the function: the new conversation and its two participant rows.\<close>

definition create_direct :: "session \<Rightarrow> int \<Rightarrow> int \<Rightarrow> conversation \<times> session" where
  "create_direct db user_id other_user_id =
     (let new_conversation =
            \<lparr>conv_id = next_id (map conv_id (conversations db)),
             conv_type = DIRECT,
             conv_created_by_id = Some user_id\<rparr>;
          pid = next_id (map cp_id (participants db));
          p1 = \<lparr>cp_id = pid, cp_conversation_id = conv_id new_conversation,
                cp_user_id = user_id, cp_is_active = True\<rparr>;
          p2 = \<lparr>cp_id = pid + 1, cp_conversation_id = conv_id new_conversation,
                cp_user_id = other_user_id, cp_is_active = True\<rparr>
      in (new_conversation,
          db\<lparr>conversations := conversations db @ [new_conversation],
             participants := participants db @ [p1, p2]\<rparr>))"

definition get_or_create_direct_conversation ::
  "session \<Rightarrow> int \<Rightarrow> int \<Rightarrow> conversation \<times> session" where
  "get_or_create_direct_conversation db user_id other_user_id =
     (case find_direct db user_id other_user_id of
        None \<Rightarrow> create_direct db user_id other_user_id
      | Some conversation \<Rightarrow>
          if set (active_participant_ids db (conv_id conversation)) = {user_id, other_user_id}
          then (conversation, db)
          else create_direct db user_id other_user_id)"

section \<open>A sample database\<close>

text \<open>
  User 1 is a person, user 2 is the account of bot 7. Conversation 5 is their direct
  conversation: the person wrote message 10, the bot answered with message 11, the person
  wrote message 12. The bot has three logged activities on the day of the sample clock.
\<close>

definition sample_bot :: bot where
  "sample_bot =
     \<lparr>bot_id = 7, bot_user_id = 2, bot_personality = Some FRIENDLY, bot_is_active = True,
      bot_activity_frequency = 60, bot_max_daily_activities = 3, bot_can_post = True,
      bot_can_message = True, bot_can_list_products = True, bot_total_messages = 4,
      bot_last_activity_at = Some 500\<rparr>"

definition sample_db :: session where
  "sample_db =
     \<lparr>users = [\<lparr>u_id = 1, u_is_bot = False\<rparr>, \<lparr>u_id = 2, u_is_bot = True\<rparr>],
      conversations = [\<lparr>conv_id = 5, conv_type = DIRECT, conv_created_by_id = Some 1\<rparr>],
      participants =
        [\<lparr>cp_id = 1, cp_conversation_id = 5, cp_user_id = 1, cp_is_active = True\<rparr>,
         \<lparr>cp_id = 2, cp_conversation_id = 5, cp_user_id = 2, cp_is_active = True\<rparr>],
      messages =
        [\<lparr>msg_id = 10, msg_conversation_id = 5, msg_sender_id = 1, msg_content = ''Hello!'',
          msg_created_at = 1000, msg_is_deleted = False\<rparr>,
         \<lparr>msg_id = 11, msg_conversation_id = 5, msg_sender_id = 2, msg_content = ''Hi there!'',
          msg_created_at = 2000, msg_is_deleted = False\<rparr>,
         \<lparr>msg_id = 12, msg_conversation_id = 5, msg_sender_id = 1, msg_content = ''show me'',
          msg_created_at = 3000, msg_is_deleted = False\<rparr>],
      bots = [sample_bot],
      bot_activities =
        [\<lparr>act_id = 1, act_bot_id = 7, act_activity_type = POST, act_message_id = None,
          act_success = True, act_created_at = 100\<rparr>,
         \<lparr>act_id = 2, act_bot_id = 7, act_activity_type = POST, act_message_id = None,
          act_success = True, act_created_at = 200\<rparr>,
         \<lparr>act_id = 3, act_bot_id = 7, act_activity_type = MESSAGE, act_message_id = Some 11,
          act_success = True, act_created_at = 2000\<rparr>]\<rparr>"

definition sample_clock :: "nat \<Rightarrow> int" where
  "sample_clock k = 4000000000 + int k"

definition sample_responses :: "bot_personality \<Rightarrow> response_type \<Rightarrow> string list" where
  "sample_responses p t = [''Good point!'']"

text \<open>
  What the schema and the data model keep true of the conversation tables: primary keys are
  distinct, every participant row points to a conversation, and the active participants of a
  direct conversation are at most two rows of different users.
\<close>

definition direct_wf :: "session \<Rightarrow> bool" where
  "direct_wf db \<longleftrightarrow>
     distinct (map conv_id (conversations db)) \<and>
     (\<forall>p\<in>set (participants db). cp_conversation_id p \<in> conv_id ` set (conversations db)) \<and>
     (\<forall>c\<in>set (conversations db). conv_type c = DIRECT \<longrightarrow>
        distinct (active_participant_ids db (conv_id c)) \<and>
        length (active_participant_ids db (conv_id c)) \<le> 2)"

text \<open>No two direct conversations have the same pair of active participants.\<close>

definition direct_unique :: "session \<Rightarrow> bool" where
  "direct_unique db \<longleftrightarrow>
     (\<forall>c\<in>set (conversations db). \<forall>c'\<in>set (conversations db).
        conv_type c = DIRECT \<and> conv_type c' = DIRECT \<and>
        length (active_participant_ids db (conv_id c)) = 2 \<and>
        length (active_participant_ids db (conv_id c')) = 2 \<and>
        set (active_participant_ids db (conv_id c)) = set (active_participant_ids db (conv_id c'))
        \<longrightarrow> c = c')"

text \<open>The test of the query on one conversation.\<close>

definition direct_match :: "session \<Rightarrow> int \<Rightarrow> int \<Rightarrow> conversation \<Rightarrow> bool" where
  "direct_match db user_id other_user_id c \<longleftrightarrow>
     conv_type c = DIRECT \<and>
     length (filter (\<lambda>p. cp_conversation_id p = conv_id c \<and>
                           cp_user_id p \<in> set [user_id, other_user_id] \<and>
                           cp_is_active p) (participants db)) = 2"

section \<open>The day of a host away from UTC\<close>

text \<open>
  The number of activity records of a bot stamped at or after a given time.
\<close>

definition activities_since :: "session \<Rightarrow> bot \<Rightarrow> int \<Rightarrow> nat" where
  "activities_since db b t =
     length (filter (\<lambda>a. act_bot_id a = bot_id b \<and> t \<le> act_created_at a) (bot_activities db))"

text \<open>
  This definition follows the words of the specification, not the code: local midnight, as a
  UTC time, for a host whose wall clock is \<open>utc_offset\<close> microseconds ahead of UTC. The
  wall clock shows \<open>now + utc_offset\<close>; its day began at the last multiple of a day not
  after that, which is \<open>utc_offset\<close> earlier on the UTC clock.
\<close>

definition spec_local_midnight :: "int \<Rightarrow> int \<Rightarrow> int" where
  "spec_local_midnight utc_offset now =
     (now + utc_offset) - (now + utc_offset) mod 86400000000 - utc_offset"

text \<open>
  The sample database with three activities of bot 7 stamped at about 11:07, 13:53 and 16:40
  UTC of day 0.
\<close>

definition overnight_db :: session where
  "overnight_db =
     sample_db\<lparr>bot_activities :=
        [\<lparr>act_id = 1, act_bot_id = 7, act_activity_type = POST, act_message_id = None,
          act_success = True, act_created_at = 40000000000\<rparr>,
         \<lparr>act_id = 2, act_bot_id = 7, act_activity_type = POST, act_message_id = None,
          act_success = True, act_created_at = 50000000000\<rparr>,
         \<lparr>act_id = 3, act_bot_id = 7, act_activity_type = POST, act_message_id = None,
          act_success = True, act_created_at = 60000000000\<rparr>]\<rparr>"

section \<open>Properties of the connection registry\<close>

subsection \<open>The online set and the connection lists\<close>

lemma registry_inv_manager: "registry_inv manager"
  by (simp add: registry_inv_def manager_def)

lemma registry_inv_disconnect: "registry_inv m \<Longrightarrow> registry_inv (disconnect ws uid m)"
  unfolding registry_inv_def disconnect_def
  by (auto simp: Let_def update_conv' delete_conv' split: option.splits if_splits)

lemma registry_inv_fold_disconnect:
  "registry_inv m \<Longrightarrow> registry_inv (fold (\<lambda>conn. disconnect conn uid) cs m)"
  by (induction cs arbitrary: m) (simp_all add: registry_inv_disconnect)

lemma registry_inv_send_personal_message:
  "registry_inv m \<Longrightarrow> registry_inv (snd (send_personal_message broken ev uid m))"
  by (simp add: send_personal_message_def Let_def registry_inv_fold_disconnect split: option.splits)

lemma registry_inv_send_each:
  "registry_inv m \<Longrightarrow> registry_inv (snd (send_each broken ev uids m))"
proof (induction uids arbitrary: m)
  case Nil
  then show ?case by simp
next
  case (Cons u uids)
  from Cons.prems have "registry_inv (snd (send_personal_message broken ev u m))"
    by (rule registry_inv_send_personal_message)
  then have "registry_inv (snd (send_each broken ev uids (snd (send_personal_message broken ev u m))))"
    by (rule Cons.IH)
  then show ?case
    by (cases "send_personal_message broken ev u m";
        cases "send_each broken ev uids (snd (send_personal_message broken ev u m))") simp
qed

lemma registry_inv_connect: "registry_inv m \<Longrightarrow> registry_inv (snd (connect broken now ws uid m))"
proof -
  assume a: "registry_inv m"
  let ?conns = "case map_of (active_connections m) uid of None \<Rightarrow> [] | Some cs \<Rightarrow> cs"
  let ?m1 = "m\<lparr>active_connections := AList.update uid (?conns @ [ws]) (active_connections m),
               online_users := finsert uid (online_users m)\<rparr>"
  from a have "registry_inv ?m1"
    unfolding registry_inv_def by (auto simp: update_conv')
  then show ?thesis
    by (simp add: connect_def Let_def broadcast_user_status_def registry_inv_send_each)
qed

lemma registry_inv_typing:
  "registry_inv m \<Longrightarrow> registry_inv (snd (broadcast_typing_status broken now cid uid t ps m))"
proof -
  assume a: "registry_inv m"
  then have "registry_inv (m\<lparr>typing_users := set_typing cid uid t (typing_users m)\<rparr>)"
    by (simp add: registry_inv_def)
  then show ?thesis
    by (simp add: broadcast_typing_status_def Let_def registry_inv_send_each)
qed

lemma registry_inv_step: "registry_inv m \<Longrightarrow> registry_inv (registry_step c m)"
  by (cases c)
     (simp_all add: registry_inv_connect registry_inv_disconnect registry_inv_send_personal_message
        send_to_conversation_def broadcast_user_status_def registry_inv_send_each registry_inv_typing)

lemma registry_inv_run: "registry_inv m \<Longrightarrow> registry_inv (run_registry calls m)"
  unfolding run_registry_def
  by (induction calls arbitrary: m) (simp_all add: registry_inv_step)

lemma run_connect_disconnect:
  "run_registry [Connect no_failures 0 10 1, Connect no_failures 1 11 1, Disconnect 10 1] manager =
     \<lparr>active_connections = [(1, [11])], online_users = {|1|}, typing_users = []\<rparr>"
  by (simp add: run_registry_def connect_def broadcast_user_status_def send_personal_message_def
        disconnect_def manager_def no_failures_def)

text \<open>
  Claim C4. After every finite sequence of calls on the registry, started from the empty
  registry (connect and disconnect, and also the sends and broadcasts, which prune the
  connections that fail), \<^verbatim>\<open>is_user_online(u)\<close> holds exactly when \<open>u\<close> has a
  key in \<^verbatim>\<open>active_connections\<close> bound to a non-empty list.
\<close>

theorem online_iff_has_connection:
  "is_user_online (run_registry calls manager) u \<longleftrightarrow>
     (\<exists>cs. map_of (active_connections (run_registry calls manager)) u = Some cs \<and> cs \<noteq> [])"
  using registry_inv_run [OF registry_inv_manager, of calls]
  unfolding registry_inv_def is_user_online_def by blast

theorem online_iff_has_connection_witness:
  "is_user_online
     (run_registry [Connect no_failures 0 10 1, Connect no_failures 1 11 1, Disconnect 10 1] manager) 1
   \<and> \<not> is_user_online
     (run_registry [Connect no_failures 0 10 1, Connect no_failures 1 11 1, Disconnect 10 1] manager) 2"
  using online_iff_has_connection
          [of "[Connect no_failures 0 10 1, Connect no_failures 1 11 1, Disconnect 10 1]" 1]
        online_iff_has_connection
          [of "[Connect no_failures 0 10 1, Connect no_failures 1 11 1, Disconnect 10 1]" 2]
  by (simp add: run_connect_disconnect)

subsection \<open>What a broadcast delivers\<close>

lemma filter_remove1_dropped:
  "P c \<Longrightarrow> filter (\<lambda>x. \<not> P x) (remove1 c xs) = filter (\<lambda>x. \<not> P x) xs"
  by (induction xs) auto

lemma live_disconnect:
  assumes "broken c"
  shows "live broken (disconnect c u m) v = live broken m v"
proof (cases "map_of (active_connections m) u")
  case None
  then show ?thesis by (simp add: disconnect_def)
next
  case (Some conns)
  show ?thesis
  proof (cases "v = u")
    case False
    with Some show ?thesis
      by (simp add: disconnect_def live_def Let_def update_conv' delete_conv')
  next
    case True
    have f: "filter (\<lambda>x. \<not> broken x) (remove1 c conns) = filter (\<lambda>x. \<not> broken x) conns"
      using assms by (rule filter_remove1_dropped)
    have e: "remove1 c conns = [] \<Longrightarrow> filter (\<lambda>x. \<not> broken x) conns = []"
      using f by simp
    have n: "c \<notin> set conns \<Longrightarrow> remove1 c conns = conns"
      by (simp add: remove1_idem)
    from Some True f e n show ?thesis
      by (auto simp: disconnect_def live_def Let_def update_conv' delete_conv')
  qed
qed

lemma live_fold_disconnect:
  "\<forall>c\<in>set cs. broken c \<Longrightarrow> live broken (fold (\<lambda>conn. disconnect conn u) cs m) v = live broken m v"
  by (induction cs arbitrary: m) (simp_all add: live_disconnect)

lemma fst_send_personal_message:
  "fst (send_personal_message broken ev u m) = map (\<lambda>c. (c, ev)) (live broken m u)"
  by (simp add: send_personal_message_def live_def Let_def split: option.splits)

lemma live_send_personal_message:
  "live broken (snd (send_personal_message broken ev u m)) v = live broken m v"
  by (simp add: send_personal_message_def Let_def live_fold_disconnect split: option.splits)

lemma fst_send_each:
  "fst (send_each broken ev uids m) = concat (map (\<lambda>u. map (\<lambda>c. (c, ev)) (live broken m u)) uids)"
proof (induction uids arbitrary: m)
  case Nil
  show ?case by simp
next
  case (Cons u uids)
  obtain d1 m1 where s1: "send_personal_message broken ev u m = (d1, m1)"
    by (cases "send_personal_message broken ev u m")
  obtain d2 m2 where s2: "send_each broken ev uids m1 = (d2, m2)"
    by (cases "send_each broken ev uids m1")
  have d1: "d1 = map (\<lambda>c. (c, ev)) (live broken m u)"
    using fst_send_personal_message [of broken ev u m] s1 by simp
  have l: "\<And>v. live broken m1 v = live broken m v"
    using live_send_personal_message [of broken ev u m] s1 by simp
  have d2: "d2 = concat (map (\<lambda>u. map (\<lambda>c. (c, ev)) (live broken m1 u)) uids)"
    using Cons.IH [of m1] s2 by simp
  show ?case using s1 s2 d1 d2 l by simp
qed

lemma live_registered:
  "live broken (m\<lparr>active_connections := AList.update uid (cs @ [ws]) (active_connections m),
                  online_users := on\<rparr>) v =
     (if v = uid then filter (\<lambda>c. \<not> broken c) (cs @ [ws]) else live broken m v)"
  by (simp add: live_def update_conv')

lemma mem_concat_map: "x \<in> set (f u) \<Longrightarrow> u \<in> set us \<Longrightarrow> x \<in> set (concat (map f us))"
  by auto

lemma first_connect:
  "snd (connect no_failures 0 10 1 manager) =
     \<lparr>active_connections = [(1, [10])], online_users = {|1|}, typing_users = []\<rparr>"
  by (simp add: connect_def broadcast_user_status_def send_personal_message_def manager_def
        no_failures_def)

lemma second_connect:
  "fst (connect no_failures 5 11 1
     \<lparr>active_connections = [(1, [10])], online_users = {|1|}, typing_users = []\<rparr>) =
     [(10, UserStatus 1 ''online'' 5), (11, UserStatus 1 ''online'' 5)]"
  by (simp add: connect_def broadcast_user_status_def send_personal_message_def
        no_failures_def)

text \<open>
  Claim C6, as stated, fails: user 1 holds connection 10 and opens connection 11; the
  status event is sent again, to both connections.
\<close>

theorem connect_second_connection_broadcast:
  "fst (connect no_failures 5 11 1 (snd (connect no_failures 0 10 1 manager))) =
     [(10, UserStatus 1 ''online'' 5), (11, UserStatus 1 ''online'' 5)]"
  by (simp only: first_connect second_connect)

text \<open>
  Claim C6, amended. \<^verbatim>\<open>connect\<close> broadcasts the online event on every call, whether
  or not the user already holds a connection: the event goes, user by user in the order of
  the dict (the connecting user last when new), to every connection on which the send
  succeeds, the new connection included.
\<close>

theorem connect_broadcasts_online:
  "fst (connect broken now ws uid m) =
     concat (map (\<lambda>v. map (\<lambda>c. (c, UserStatus uid ''online'' now))
                      (if v = uid then live broken m uid @ filter (\<lambda>c. \<not> broken c) [ws]
                       else live broken m v))
                 (if uid \<in> fst ` set (active_connections m)
                  then map fst (active_connections m)
                  else map fst (active_connections m) @ [uid]))
   \<and> (\<not> broken ws \<longrightarrow> (ws, UserStatus uid ''online'' now) \<in> set (fst (connect broken now ws uid m)))"
proof -
  let ?cs = "case map_of (active_connections m) uid of None \<Rightarrow> [] | Some cs \<Rightarrow> cs"
  let ?users = "if uid \<in> fst ` set (active_connections m)
                then map fst (active_connections m)
                else map fst (active_connections m) @ [uid]"
  let ?to = "\<lambda>v. if v = uid then live broken m uid @ filter (\<lambda>c. \<not> broken c) [ws]
                 else live broken m v"
  let ?m1 = "m\<lparr>active_connections := AList.update uid (?cs @ [ws]) (active_connections m),
               online_users := finsert uid (online_users m)\<rparr>"
  have k: "map fst (active_connections ?m1) = ?users"
    by (simp add: update_keys)
  have l: "\<And>v. live broken ?m1 v = ?to v"
    by (simp add: live_def update_conv' split: option.splits)
  have "fst (connect broken now ws uid m) =
     concat (map (\<lambda>v. map (\<lambda>c. (c, UserStatus uid ''online'' now)) (live broken ?m1 v))
                 (map fst (active_connections ?m1)))"
    by (simp add: connect_def Let_def broadcast_user_status_def fst_send_each)
  then have eq: "fst (connect broken now ws uid m) =
     concat (map (\<lambda>v. map (\<lambda>c. (c, UserStatus uid ''online'' now)) (?to v)) ?users)"
    by (simp only: k l)
  have mem: "uid \<in> set ?users" by simp
  have "\<not> broken ws \<Longrightarrow>
      (ws, UserStatus uid ''online'' now) \<in> set (map (\<lambda>c. (c, UserStatus uid ''online'' now)) (?to uid))"
    by simp
  then have "\<not> broken ws \<Longrightarrow>
      (ws, UserStatus uid ''online'' now) \<in>
        set (concat (map (\<lambda>v. map (\<lambda>c. (c, UserStatus uid ''online'' now)) (?to v)) ?users))"
    by (rule mem_concat_map [OF _ mem])
  with eq show ?thesis by simp
qed

theorem connect_broadcasts_online_witness:
  "\<not> no_failures 11 \<and>
   (11, UserStatus 1 ''online'' 5) \<in>
     set (fst (connect no_failures 5 11 1
       \<lparr>active_connections = [(1, [10])], online_users = {|1|}, typing_users = []\<rparr>))"
  using connect_broadcasts_online [of no_failures 5 11 1
      "\<lparr>active_connections = [(1, [10])], online_users = {|1|}, typing_users = []\<rparr>"]
  by (simp add: no_failures_def)

subsection \<open>Typing state\<close>

lemma typing_users_disconnect: "typing_users (disconnect c u m) = typing_users m"
  by (simp add: disconnect_def Let_def split: option.splits)

lemma typing_users_fold_disconnect:
  "typing_users (fold (\<lambda>conn. disconnect conn u) cs m) = typing_users m"
  by (induction cs arbitrary: m) (simp_all add: typing_users_disconnect)

lemma typing_users_send_personal_message:
  "typing_users (snd (send_personal_message broken ev u m)) = typing_users m"
  by (simp add: send_personal_message_def Let_def typing_users_fold_disconnect split: option.splits)

lemma typing_users_send_each:
  "typing_users (snd (send_each broken ev uids m)) = typing_users m"
proof (induction uids arbitrary: m)
  case Nil
  show ?case by simp
next
  case (Cons u uids)
  obtain d1 m1 where s1: "send_personal_message broken ev u m = (d1, m1)"
    by (cases "send_personal_message broken ev u m")
  obtain d2 m2 where s2: "send_each broken ev uids m1 = (d2, m2)"
    by (cases "send_each broken ev uids m1")
  have "typing_users m1 = typing_users m"
    using typing_users_send_personal_message [of broken ev u m] s1 by simp
  moreover have "typing_users m2 = typing_users m1"
    using Cons.IH [of m1] s2 by simp
  ultimately show ?case using s1 s2 by simp
qed

lemma typing_users_broadcast_typing_status:
  "typing_users (snd (broadcast_typing_status broken now cid uid t ps m)) =
     set_typing cid uid t (typing_users m)"
  by (simp add: broadcast_typing_status_def Let_def typing_users_send_each)

lemma typing_users_connect: "typing_users (snd (connect broken now ws uid m)) = typing_users m"
  by (simp add: connect_def Let_def broadcast_user_status_def typing_users_send_each)

lemma fst_broadcast_typing_status:
  "fst (broadcast_typing_status broken now cid uid t ps m) =
     concat (map (\<lambda>p. map (\<lambda>c. (c, Typing cid uid t now)) (live broken m p))
                 (filter (\<lambda>p. p \<noteq> uid) ps))"
  by (simp add: broadcast_typing_status_def Let_def fst_send_each live_def)

lemma map_of_set_typing_True:
  "map_of (set_typing cid uid True tu) cid =
     Some (finsert uid (case map_of tu cid of None \<Rightarrow> {||} | Some s \<Rightarrow> s))"
  by (simp add: set_typing_def Let_def update_conv')

lemma map_of_set_typing_False:
  "map_of (set_typing cid uid False tu) cid =
     (case map_of tu cid of
        None \<Rightarrow> None
      | Some s \<Rightarrow> if s |-| {|uid|} = {||} then None else Some (s |-| {|uid|}))"
  by (simp add: set_typing_def Let_def update_conv' delete_conv' split: option.splits)

lemma set_typing_True_twice:
  "set_typing cid uid True (set_typing cid uid True tu) = set_typing cid uid True tu"
  by (simp add: set_typing_def Let_def update_conv')

lemma count_list_distinct_mem:
  "distinct xs \<Longrightarrow> x \<in> set xs \<Longrightarrow> count_list xs x = 1"
  by (induction xs) auto

lemma count_sorted_list_of_fset:
  "count_list (sorted_list_of_fset S) x = (if x |\<in>| S then 1 else 0)"
proof -
  have d: "distinct (sorted_list_of_fset S)"
    by (simp add: sorted_list_of_fset.rep_eq)
  have s: "set (sorted_list_of_fset S) = fset S" by simp
  show ?thesis
  proof (cases "x |\<in>| S")
    case True
    then have "x \<in> set (sorted_list_of_fset S)" using s by simp
    with d show ?thesis using True by (simp add: count_list_distinct_mem)
  next
    case False
    then have "x \<notin> set (sorted_list_of_fset S)" using s by simp
    then show ?thesis using False by (simp add: count_list_0_iff)
  qed
qed

text \<open>
  Claim C9. After \<^verbatim>\<open>broadcast_typing_status\<close> with \<^verbatim>\<open>is_typing\<close> true the
  user is listed by \<^verbatim>\<open>get_typing_users\<close> for the conversation; after a call with
  false the user is not; after two calls with true the user is listed exactly once and the
  typing dict is the one left by the first call. The typing event is delivered, in the order
  of \<^verbatim>\<open>participant_ids\<close>, to the working connections of every listed participant
  other than the signalling user, and to nobody else.
\<close>

theorem typing_status_set_semantics:
  "uid \<in> set (get_typing_users (snd (broadcast_typing_status broken now cid uid True ps m)) cid)
   \<and> uid \<notin> set (get_typing_users (snd (broadcast_typing_status broken now cid uid False ps m)) cid)
   \<and> count_list
         (get_typing_users
            (snd (broadcast_typing_status broken' now' cid uid True ps'
                    (snd (broadcast_typing_status broken now cid uid True ps m)))) cid) uid = 1
   \<and> typing_users
         (snd (broadcast_typing_status broken' now' cid uid True ps'
                 (snd (broadcast_typing_status broken now cid uid True ps m))))
       = typing_users (snd (broadcast_typing_status broken now cid uid True ps m))
   \<and> fst (broadcast_typing_status broken now cid uid t ps m) =
         concat (map (\<lambda>p. map (\<lambda>c. (c, Typing cid uid t now)) (live broken m p))
                     (filter (\<lambda>p. p \<noteq> uid) ps))"
  by (simp add: get_typing_users_def typing_users_broadcast_typing_status
        map_of_set_typing_True map_of_set_typing_False set_typing_True_twice
        count_sorted_list_of_fset fst_broadcast_typing_status split: option.splits)

theorem typing_status_set_semantics_witness:
  "count_list
     (get_typing_users
        (snd (broadcast_typing_status no_failures 1 7 1 True [1, 2]
                (snd (broadcast_typing_status no_failures 0 7 1 True [1, 2] manager)))) 7) 1 = 1
   \<and> fst (broadcast_typing_status no_failures 0 7 1 True [1, 2]
          \<lparr>active_connections = [(1, [10]), (2, [20, 21])], online_users = {|1, 2|},
            typing_users = []\<rparr>) =
       [(20, Typing 7 1 True 0), (21, Typing 7 1 True 0)]"
  using typing_status_set_semantics [of 1 no_failures 0 7 "[1, 2]" manager no_failures 1 "[1, 2]"]
        typing_status_set_semantics [of 1 no_failures 0 7 "[1, 2]"
          "\<lparr>active_connections = [(1, [10]), (2, [20, 21])], online_users = {|1, 2|},
            typing_users = []\<rparr>" no_failures 1 "[1, 2]" True]
  by (simp add: live_def no_failures_def)

lemma set_update_subset: "set (AList.update k v al) \<subseteq> insert (k, v) (set al)"
  by (induction al) auto

lemma set_delete_subset: "set (AList.delete k al) \<subseteq> set al"
  by (induction al) auto

lemma set_typing_nonempty:
  assumes "\<forall>(c, s) \<in> set tu. s \<noteq> {||}"
  shows "\<forall>(c, s) \<in> set (set_typing cid uid t tu). s \<noteq> {||}"
proof (cases t)
  case True
  let ?v = "finsert uid (case map_of tu cid of None \<Rightarrow> {||} | Some s \<Rightarrow> s)"
  have "set (set_typing cid uid t tu) \<subseteq> insert (cid, ?v) (set tu)"
    using True set_update_subset [of cid ?v tu] by (simp add: set_typing_def Let_def)
  moreover have "?v \<noteq> {||}" by simp
  ultimately show ?thesis using assms by blast
next
  case False
  show ?thesis
  proof (cases "map_of tu cid")
    case None
    with False assms show ?thesis by (simp add: set_typing_def)
  next
    case (Some s)
    show ?thesis
    proof (cases "s |-| {|uid|} = {||}")
      case True
      with False Some have "set (set_typing cid uid t tu) \<subseteq> set tu"
        using set_delete_subset [of cid tu] by (simp add: set_typing_def Let_def)
      with assms show ?thesis by blast
    next
      case ne: False
      with False Some have "set (set_typing cid uid t tu) \<subseteq> insert (cid, s |-| {|uid|}) (set tu)"
        using set_update_subset [of cid "s |-| {|uid|}" tu] by (simp add: set_typing_def Let_def)
      with assms ne show ?thesis by blast
    qed
  qed
qed

lemma typing_inv_step: "typing_inv m \<Longrightarrow> typing_inv (registry_step c m)"
proof (cases c)
  case (BroadcastTypingStatus broken now cid uid t ps)
  assume "typing_inv m"
  then show ?thesis
    unfolding typing_inv_def BroadcastTypingStatus registry_step.simps
      typing_users_broadcast_typing_status
    by (rule set_typing_nonempty)
qed (simp_all add: typing_inv_def typing_users_connect typing_users_disconnect
       typing_users_send_personal_message send_to_conversation_def broadcast_user_status_def
       typing_users_send_each)

lemma typing_inv_run: "typing_inv m \<Longrightarrow> typing_inv (run_registry calls m)"
  unfolding run_registry_def
  by (induction calls arbitrary: m) (simp_all add: typing_inv_step)

lemma typing_inv_manager: "typing_inv manager"
  by (simp add: typing_inv_def manager_def)

lemma sorted_list_of_fset_eq_Nil: "sorted_list_of_fset S = [] \<longleftrightarrow> S = {||}"
proof
  assume "sorted_list_of_fset S = []"
  then have "fset_of_list (sorted_list_of_fset S) = fset_of_list []" by simp
  then show "S = {||}" by simp
next
  assume "S = {||}"
  then show "sorted_list_of_fset S = []" by (simp add: sorted_list_of_fset.rep_eq)
qed

lemma run_typing_on_off:
  "typing_users (run_registry
      [BroadcastTypingStatus no_failures 0 7 1 True [1, 2],
       BroadcastTypingStatus no_failures 1 7 1 False [1, 2]] manager) = []"
  by (simp add: run_registry_def typing_users_broadcast_typing_status set_typing_def manager_def)

text \<open>
  Claim C10. After every finite sequence of registry calls from the empty registry no key of
  the typing dict is bound to the empty set; when the only typing user of a conversation
  signals false the key of the conversation is deleted; and \<^verbatim>\<open>get_typing_users\<close>
  returns the empty list exactly for the conversations that have no key.
\<close>

theorem typing_map_no_empty_entry:
  "(\<forall>(c, s) \<in> set (typing_users (run_registry calls manager)). s \<noteq> {||})
   \<and> (map_of (typing_users m) cid = Some {|uid|} \<longrightarrow>
        cid \<notin> fst ` set (typing_users (snd (broadcast_typing_status broken now cid uid False ps m))))
   \<and> (get_typing_users (run_registry calls manager) cid = [] \<longleftrightarrow>
        cid \<notin> fst ` set (typing_users (run_registry calls manager)))"
proof -
  let ?r = "run_registry calls manager"
  have inv: "\<forall>(c, s) \<in> set (typing_users ?r). s \<noteq> {||}"
    using typing_inv_run [OF typing_inv_manager, of calls] by (simp add: typing_inv_def)
  have rm: "map_of (typing_users m) cid = Some {|uid|} \<longrightarrow>
        cid \<notin> fst ` set (typing_users (snd (broadcast_typing_status broken now cid uid False ps m)))"
    by (simp add: typing_users_broadcast_typing_status set_typing_def Let_def delete_notin_dom)
  have g: "get_typing_users ?r cid = [] \<longleftrightarrow> cid \<notin> fst ` set (typing_users ?r)"
  proof (cases "map_of (typing_users ?r) cid")
    case None
    then have "cid \<notin> fst ` set (typing_users ?r)"
      by (simp add: map_of_eq_None_iff)
    moreover from None have "get_typing_users ?r cid = []"
      by (simp add: get_typing_users_def sorted_list_of_fset_eq_Nil)
    ultimately show ?thesis by simp
  next
    case (Some s)
    then have "(cid, s) \<in> set (typing_users ?r)" by (rule map_of_SomeD)
    with inv have "s \<noteq> {||}" by blast
    moreover from Some have "cid \<in> fst ` set (typing_users ?r)"
      by (metis map_of_eq_None_iff option.distinct(1))
    ultimately show ?thesis using Some
      by (simp add: get_typing_users_def sorted_list_of_fset_eq_Nil)
  qed
  from inv rm g show ?thesis by blast
qed

theorem typing_map_no_empty_entry_witness:
  "get_typing_users (run_registry
      [BroadcastTypingStatus no_failures 0 7 1 True [1, 2],
       BroadcastTypingStatus no_failures 1 7 1 False [1, 2]] manager) 7 = []
   \<and> 7 \<notin> fst ` set (typing_users (snd (broadcast_typing_status no_failures 1 7 1 False [1, 2]
        \<lparr>active_connections = [], online_users = {||}, typing_users = [(7, {|1|})]\<rparr>)))"
  using typing_map_no_empty_entry [of
      "[BroadcastTypingStatus no_failures 0 7 1 True [1, 2],
        BroadcastTypingStatus no_failures 1 7 1 False [1, 2]]"
      "\<lparr>active_connections = [], online_users = {||}, typing_users = [(7, {|1|})]\<rparr>"
      7 1 no_failures 1 "[1, 2]"]
  by (simp add: run_typing_on_off)

section \<open>Properties of the response classifier\<close>

lemma take_eq_iff_prefix: "take (length w) xs = w \<longleftrightarrow> prefix w xs"
proof
  assume "take (length w) xs = w"
  then have "xs = w @ drop (length w) xs" by (metis append_take_drop_id)
  then show "prefix w xs" unfolding prefix_def by blast
next
  assume "prefix w xs"
  then obtain zs where "xs = w @ zs" unfolding prefix_def by blast
  then show "take (length w) xs = w" by simp
qed

lemma contains_iff_sublist: "contains s word \<longleftrightarrow> sublist word s"
proof (induction s)
  case Nil
  show ?case by simp
next
  case (Cons c cs)
  show ?case
    unfolding contains.simps take_eq_iff_prefix Cons.IH sublist_Cons_right
    by blast
qed

lemma any_contains:
  "list_ex (\<lambda>word. contains s word) ws \<longleftrightarrow> (\<exists>w\<in>set ws. sublist w s)"
  unfolding list_ex_iff contains_iff_sublist by (rule refl)

lemma split_from_words:
  "\<forall>c\<in>set cur. \<not> isspace c \<Longrightarrow> w \<in> set (split_from cur s) \<Longrightarrow>
     w \<noteq> [] \<and> (\<forall>c\<in>set w. \<not> isspace c)"
proof (induction cur s rule: split_from.induct)
  case (1 cur)
  then show ?case by (cases "cur = []") simp_all
next
  case (2 cur c cs)
  note cur = \<open>\<forall>c\<in>set cur. \<not> isspace c\<close>
  note mem = \<open>w \<in> set (split_from cur (c # cs))\<close>
  show ?case
  proof (cases "isspace c")
    case sp: True
    show ?thesis
    proof (cases "cur = []")
      case True
      from mem sp True have "w \<in> set (split_from [] cs)" by simp
      with "2.IH"(1) [OF sp True] show ?thesis by simp
    next
      case False
      from mem sp False have "w = cur \<or> w \<in> set (split_from [] cs)" by simp
      then show ?thesis
      proof
        assume "w = cur"
        with cur False show ?thesis by simp
      next
        assume "w \<in> set (split_from [] cs)"
        with "2.IH"(2) [OF sp False] show ?thesis by simp
      qed
    qed
  next
    case False
    from mem False have m: "w \<in> set (split_from (cur @ [c]) cs)" by simp
    from cur False have "\<forall>x\<in>set (cur @ [c]). \<not> isspace x" by simp
    from "2.IH"(3) [OF False this m] show ?thesis .
  qed
qed

lemma concat_split_from:
  "concat (split_from cur s) = cur @ filter (\<lambda>c. \<not> isspace c) s"
  by (induction cur s rule: split_from.induct) simp_all

lemma thanks_example: "strip (lower ''Thanks, how are you'') = ''thanks, how are you''"
  by code_simp

text \<open>
  Claim C7, as stated, fails in its last part: \<^verbatim>\<open>show me\<close> holds \<^verbatim>\<open>how\<close> only inside
  \<^verbatim>\<open>show\<close>, and is classified as a question.
\<close>

theorem show_me_is_question: "classify ''show me'' = Question"
  by code_simp

text \<open>
  Claim C7, amended. The classifier gives every text one bucket, in this order of priority:
  greeting when the text, lower-cased and stripped, has one of the greeting literals as a
  contiguous run of characters; else thanks, the same way with the gratitude literals; else
  question, with the question mark and the interrogative literals; else general when it has
  more than three words; else default. The three tests are substring tests, so a literal
  found inside a longer word counts.
\<close>

theorem classify_priority:
  "classify s =
     (if \<exists>w\<in>set greeting_words. sublist w (strip (lower s)) then Greeting
      else if \<exists>w\<in>set thanks_words. sublist w (strip (lower s)) then Thanks
      else if \<exists>w\<in>set question_words. sublist w (strip (lower s)) then Question
      else if 3 < length (split (strip (lower s))) then General
      else Default)"
  unfolding classify_def Let_def any_contains by (rule refl)

theorem classify_priority_witness:
  "classify ''Thanks, how are you'' = Thanks"
proof -
  have g: "\<not> (\<exists>w\<in>set greeting_words. sublist w ''thanks, how are you'')"
    unfolding any_contains [symmetric] by code_simp
  have t: "\<exists>w\<in>set thanks_words. sublist w ''thanks, how are you''"
    unfolding any_contains [symmetric] by code_simp
  show ?thesis
    using classify_priority [of "''Thanks, how are you''"] g t
    by (simp only: thanks_example if_True if_False)
qed

section \<open>Properties of the protocol handler\<close>

lemma send_json_open: "send_json True r = Replied r OPEN"
  by (simp add: send_json_def)

lemma handle_frame_not_closed: "handle_frame True frame \<noteq> Replied r CLOSED"
proof (cases frame)
  case JSONDecodeError
  then show ?thesis by (simp add: handle_frame_def send_json_open)
next
  case (Decoded j)
  show ?thesis
  proof (cases j)
    case (JObj d)
    with Decoded show ?thesis
      by (simp add: handle_frame_def send_json_open Let_def split: option.splits)
  qed (simp_all add: Decoded handle_frame_def send_json_open)
qed

lemma strip_hi: "strip ''hi'' = ''hi''"
  by code_simp

text \<open>
  Claim C5, as stated, fails for the typing and read kinds: a typing frame with no
  \<^verbatim>\<open>conversation_id\<close> is dropped and no error event is sent.
\<close>

theorem typing_without_conversation_ignored:
  "handle_frame True (Decoded (JObj [(''type'', JStr ''typing'')])) = Ignored"
  by (simp add: handle_frame_def dict_get_def)

text \<open>
  Claim C5, amended. With a working transport: text that is not JSON, JSON that is not an
  object, a frame whose type is none of the four kinds, and a message frame whose content is
  not a string or whose \<^verbatim>\<open>conversation_id\<close> or stripped content is missing or empty
  are each answered with one error event on the connection the frame came from (for an unknown
  kind the event carries the value of the type field), and nothing is sent to anybody else; a
  typing or read frame whose \<^verbatim>\<open>conversation_id\<close> is missing or empty is dropped with
  no event at all. No frame closes the connection.
\<close>

theorem protocol_errors:
  "handle_frame True JSONDecodeError = Replied (ErrorReply InvalidJSONFormat) OPEN
   \<and> ((\<forall>d. j \<noteq> JObj d) \<longrightarrow>
         handle_frame True (Decoded j) = Replied (ErrorReply InternalServerError) OPEN)
   \<and> (dict_get d ''type'' JNull \<notin> {JStr ''message'', JStr ''typing'', JStr ''read'', JStr ''ping''} \<longrightarrow>
         handle_frame True (Decoded (JObj d)) =
           Replied (ErrorReply (UnknownMessageType (dict_get d ''type'' JNull))) OPEN)
   \<and> (dict_get d ''type'' JNull = JStr ''message'' \<and> content_of d = None \<longrightarrow>
         handle_frame True (Decoded (JObj d)) = Replied (ErrorReply InternalServerError) OPEN)
   \<and> (dict_get d ''type'' JNull = JStr ''message'' \<and> content_of d = Some content \<and>
        (\<not> truthy (dict_get d ''conversation_id'' JNull) \<or> content = []) \<longrightarrow>
         handle_frame True (Decoded (JObj d)) =
           Replied (ErrorReply MissingConversationIdOrContent) OPEN)
   \<and> (dict_get d ''type'' JNull \<in> {JStr ''typing'', JStr ''read''} \<and>
        \<not> truthy (dict_get d ''conversation_id'' JNull) \<longrightarrow>
         handle_frame True (Decoded (JObj d)) = Ignored)
   \<and> handle_frame True frame \<noteq> Replied r CLOSED"
proof -
  have a: "handle_frame True JSONDecodeError = Replied (ErrorReply InvalidJSONFormat) OPEN"
    by (simp add: handle_frame_def send_json_open)
  have b: "(\<forall>d. j \<noteq> JObj d) \<longrightarrow>
         handle_frame True (Decoded j) = Replied (ErrorReply InternalServerError) OPEN"
    by (cases j) (simp_all add: handle_frame_def send_json_open)
  have c: "dict_get d ''type'' JNull \<notin> {JStr ''message'', JStr ''typing'', JStr ''read'', JStr ''ping''} \<longrightarrow>
         handle_frame True (Decoded (JObj d)) =
           Replied (ErrorReply (UnknownMessageType (dict_get d ''type'' JNull))) OPEN"
    by (simp add: handle_frame_def send_json_open Let_def)
  have d: "dict_get d ''type'' JNull = JStr ''message'' \<and> content_of d = None \<longrightarrow>
         handle_frame True (Decoded (JObj d)) = Replied (ErrorReply InternalServerError) OPEN"
    by (simp add: handle_frame_def send_json_open Let_def)
  have e: "dict_get d ''type'' JNull = JStr ''message'' \<and> content_of d = Some content \<and>
        (\<not> truthy (dict_get d ''conversation_id'' JNull) \<or> content = []) \<longrightarrow>
         handle_frame True (Decoded (JObj d)) =
           Replied (ErrorReply MissingConversationIdOrContent) OPEN"
    by (auto simp: handle_frame_def send_json_open Let_def)
  have f: "dict_get d ''type'' JNull \<in> {JStr ''typing'', JStr ''read''} \<and>
        \<not> truthy (dict_get d ''conversation_id'' JNull) \<longrightarrow>
         handle_frame True (Decoded (JObj d)) = Ignored"
    by (auto simp: handle_frame_def Let_def)
  from a b c d e f handle_frame_not_closed [of frame r] show ?thesis by blast
qed

theorem protocol_errors_witness:
  "handle_frame True (Decoded (JObj [(''type'', JStr ''dance'')])) =
     Replied (ErrorReply (UnknownMessageType (JStr ''dance''))) OPEN
   \<and> handle_frame True (Decoded (JObj [(''type'', JStr ''message''), (''content'', JStr ''hi'')])) =
     Replied (ErrorReply MissingConversationIdOrContent) OPEN
   \<and> handle_frame True (Decoded (JObj [(''type'', JStr ''message''), (''content'', JInt 5)])) =
     Replied (ErrorReply InternalServerError) OPEN
   \<and> handle_frame True (Decoded (JArr [])) = Replied (ErrorReply InternalServerError) OPEN
   \<and> handle_frame True (Decoded (JObj [(''type'', JStr ''read'')])) = Ignored"
proof -
  have 1: "handle_frame True (Decoded (JObj [(''type'', JStr ''dance'')])) =
     Replied (ErrorReply (UnknownMessageType (JStr ''dance''))) OPEN"
    using protocol_errors [of _ "[(''type'', JStr ''dance'')]"]
    by (simp add: dict_get_def)
  have 2: "handle_frame True (Decoded (JObj [(''type'', JStr ''message''), (''content'', JStr ''hi'')])) =
     Replied (ErrorReply MissingConversationIdOrContent) OPEN"
    using protocol_errors [of _ "[(''type'', JStr ''message''), (''content'', JStr ''hi'')]" "''hi''"]
    by (simp add: dict_get_def content_of_def strip_hi)
  have 3: "handle_frame True (Decoded (JObj [(''type'', JStr ''message''), (''content'', JInt 5)])) =
     Replied (ErrorReply InternalServerError) OPEN"
    using protocol_errors [of _ "[(''type'', JStr ''message''), (''content'', JInt 5)]"]
    by (simp add: dict_get_def content_of_def)
  have 4: "handle_frame True (Decoded (JArr [])) = Replied (ErrorReply InternalServerError) OPEN"
    using protocol_errors [of "JArr []"] by simp
  have 5: "handle_frame True (Decoded (JObj [(''type'', JStr ''read'')])) = Ignored"
    using protocol_errors [of _ "[(''type'', JStr ''read'')]"]
    by (simp add: dict_get_def)
  from 1 2 3 4 5 show ?thesis by simp
qed

section \<open>Properties of the bot service\<close>

subsection \<open>Eligibility\<close>

lemma today_start_midnight:
  "today_start now \<le> now \<and> now < today_start now + 86400000000 \<and>
   today_start now mod 86400000000 = 0"
proof -
  have "0 \<le> now mod 86400000000" "now mod 86400000000 < 86400000000"
    by simp_all
  moreover have "(now - now mod 86400000000) mod 86400000000 = 0"
    by (simp add: minus_mod_eq_mult_div)
  ultimately show ?thesis unfolding today_start_def by linarith
qed

lemma sample_today: "today_start 4000000000 = 0"
  by (simp add: today_start_def)

lemma overnight_local_midnight: "spec_local_midnight (- 10800000000) 90000000000 = 10800000000"
  by (simp add: spec_local_midnight_def)

lemma overnight_utc_midnight: "today_start 90000000000 = 86400000000"
  by (simp add: today_start_def)

text \<open>
  Claim C2, as stated, fails on a host that is not on UTC. The host is three hours behind
  UTC and the clock reads 01:00 UTC of day 1, which is 22:00 of day 0 on the wall. Local
  midnight was 03:00 UTC of day 0; since then the bot has logged three activities, its daily
  maximum, all of them before the UTC midnight from which the code counts, and
  \<^verbatim>\<open>should_bot_act\<close> is true.
\<close>

theorem cap_counts_from_utc_midnight:
  "bot_max_daily_activities sample_bot \<le>
     int (activities_since overnight_db sample_bot
            (spec_local_midnight (- 10800000000) 90000000000))
   \<and> should_bot_act overnight_db sample_bot 90000000000"
  by (simp add: overnight_local_midnight overnight_utc_midnight activities_since_def
        should_bot_act_def overnight_db_def sample_db_def sample_bot_def)

text \<open>
  Claim C2, amended. \<^verbatim>\<open>should_bot_act\<close> is false whenever the number of activities
  logged for the bot since midnight of the UTC day of \<^verbatim>\<open>datetime.utcnow()\<close> has
  reached \<^verbatim>\<open>max_daily_activities\<close>, whatever \<^verbatim>\<open>last_activity_at\<close> is; it is false
  whenever \<^verbatim>\<open>last_activity_at\<close> is set and less than \<^verbatim>\<open>activity_frequency\<close>
  minutes have passed since; and it is true when neither holds. That midnight is the last
  multiple of a day not after the clock.
\<close>

theorem should_bot_act_rule:
  "(bot_max_daily_activities b \<le>
      int (length (filter (\<lambda>a. act_bot_id a = bot_id b \<and> today_start now \<le> act_created_at a)
                     (bot_activities db)))
      \<longrightarrow> \<not> should_bot_act db b now)
   \<and> (bot_last_activity_at b = Some l \<and> now - l < bot_activity_frequency b * 60 * 1000000
      \<longrightarrow> \<not> should_bot_act db b now)
   \<and> (int (length (filter (\<lambda>a. act_bot_id a = bot_id b \<and> today_start now \<le> act_created_at a)
                     (bot_activities db))) < bot_max_daily_activities b
      \<and> (bot_last_activity_at b = None
         \<or> (\<exists>t. bot_last_activity_at b = Some t \<and>
                 bot_activity_frequency b * 60 * 1000000 \<le> now - t))
      \<longrightarrow> should_bot_act db b now)
   \<and> today_start now \<le> now \<and> now < today_start now + 86400000000
   \<and> today_start now mod 86400000000 = 0"
proof -
  have 1: "bot_max_daily_activities b \<le>
      int (length (filter (\<lambda>a. act_bot_id a = bot_id b \<and> today_start now \<le> act_created_at a)
                     (bot_activities db)))
      \<longrightarrow> \<not> should_bot_act db b now"
    by (simp add: should_bot_act_def Let_def)
  have 2: "bot_last_activity_at b = Some l \<and> now - l < bot_activity_frequency b * 60 * 1000000
      \<longrightarrow> \<not> should_bot_act db b now"
    by (simp add: should_bot_act_def Let_def)
  have 3: "int (length (filter (\<lambda>a. act_bot_id a = bot_id b \<and> today_start now \<le> act_created_at a)
                     (bot_activities db))) < bot_max_daily_activities b
      \<and> (bot_last_activity_at b = None
         \<or> (\<exists>t. bot_last_activity_at b = Some t \<and>
                 bot_activity_frequency b * 60 * 1000000 \<le> now - t))
      \<longrightarrow> should_bot_act db b now"
    by (auto simp: should_bot_act_def Let_def)
  from 1 2 3 today_start_midnight [of now] show ?thesis by blast
qed

theorem should_bot_act_rule_witness:
  "\<not> should_bot_act sample_db sample_bot 4000000000
   \<and> should_bot_act (sample_db\<lparr>bot_activities := tl (bot_activities sample_db)\<rparr>)
         sample_bot 4000000000
   \<and> \<not> should_bot_act (sample_db\<lparr>bot_activities := tl (bot_activities sample_db)\<rparr>)
         sample_bot 3000000000"
proof -
  have 1: "\<not> should_bot_act sample_db sample_bot 4000000000"
    using should_bot_act_rule [of sample_bot 4000000000 sample_db]
    by (simp add: sample_today sample_db_def sample_bot_def)
  have 2: "should_bot_act (sample_db\<lparr>bot_activities := tl (bot_activities sample_db)\<rparr>)
         sample_bot 4000000000"
    using should_bot_act_rule [of sample_bot 4000000000
        "sample_db\<lparr>bot_activities := tl (bot_activities sample_db)\<rparr>"]
    by (simp add: sample_today sample_db_def sample_bot_def)
  have t: "today_start 3000000000 = 0"
    by (simp add: today_start_def)
  have 3: "\<not> should_bot_act (sample_db\<lparr>bot_activities := tl (bot_activities sample_db)\<rparr>)
         sample_bot 3000000000"
    using should_bot_act_rule [of sample_bot 3000000000
        "sample_db\<lparr>bot_activities := tl (bot_activities sample_db)\<rparr>" 500]
    by (simp add: t sample_db_def sample_bot_def)
  from 1 2 3 show ?thesis by simp
qed

subsection \<open>Immediate and scheduled responses\<close>

text \<open>
  Claim C1. When the triggering message was sent by a bot account,
  \<^verbatim>\<open>trigger_immediate_bot_response\<close> returns \<^verbatim>\<open>None\<close> and leaves the database as
  it was: no message, no activity record, no counter change.
\<close>

theorem trigger_ignores_bot_sender:
  assumes "find (\<lambda>m. msg_id m = triggering_message_id) (messages db) = Some triggering_message"
    and "user_of db (msg_sender_id triggering_message) = Some sender"
    and "u_is_bot sender"
  shows "trigger_immediate_bot_response responses rnd utcnow db conversation_id
           triggering_message_id = Inr (None, db)"
  using assms by (simp add: trigger_immediate_bot_response_def)

theorem trigger_ignores_bot_sender_witness:
  "trigger_immediate_bot_response sample_responses 0 sample_clock sample_db 5 11 =
     Inr (None, sample_db)"
proof -
  have m: "find (\<lambda>m. msg_id m = 11) (messages sample_db) =
      Some \<lparr>msg_id = 11, msg_conversation_id = 5, msg_sender_id = 2, msg_content = ''Hi there!'',
            msg_created_at = 2000, msg_is_deleted = False\<rparr>"
    by (simp add: sample_db_def)
  have s: "user_of sample_db 2 = Some \<lparr>u_id = 2, u_is_bot = True\<rparr>"
    by (simp add: user_of_def sample_db_def)
  have s': "user_of sample_db
      (msg_sender_id \<lparr>msg_id = 11, msg_conversation_id = 5, msg_sender_id = 2,
         msg_content = ''Hi there!'', msg_created_at = 2000, msg_is_deleted = False\<rparr>) =
      Some \<lparr>u_id = 2, u_is_bot = True\<rparr>"
    using s by simp
  show ?thesis
    using trigger_ignores_bot_sender [OF m s'] by simp
qed

lemma find_updated_row:
  assumes "distinct (map bot_id rows)" and "b \<in> set rows" and "bot_id (g b) = bot_id b"
  shows "find (\<lambda>x. bot_id x = bot_id b)
           (map (\<lambda>r. if bot_id r = bot_id b then g b else r) rows) = Some (g b)"
  using assms
proof (induction rows)
  case Nil
  then show ?case by simp
next
  case (Cons r rows)
  show ?case
  proof (cases "bot_id r = bot_id b")
    case True
    with Cons.prems show ?thesis by simp
  next
    case False
    with Cons.prems have "b \<in> set rows" by auto
    moreover from Cons.prems have "distinct (map bot_id rows)" by simp
    ultimately show ?thesis using Cons.IH Cons.prems(3) False by simp
  qed
qed

lemma same_key_same_row:
  "distinct (map bot_id rows) \<Longrightarrow> b \<in> set rows \<Longrightarrow> r \<in> set rows \<Longrightarrow>
     bot_id r = bot_id b \<Longrightarrow> r = b"
  by (metis distinct_map inj_onD)

lemma map_update_rows:
  assumes "distinct (map bot_id rows)" and "b \<in> set rows"
  shows "map (\<lambda>r. if bot_id r = bot_id b then g r else r) rows =
         map (\<lambda>r. if bot_id r = bot_id b then g b else r) rows"
proof (rule map_cong [OF refl])
  fix r assume "r \<in> set rows"
  with assms same_key_same_row [of rows b r]
  show "(if bot_id r = bot_id b then g r else r) = (if bot_id r = bot_id b then g b else r)"
    by auto
qed

lemma respond_first_result:
  assumes "respond_first responses rnd utcnow db cid tm bps = Inr (Some r, db')"
  shows "\<exists>b\<in>set (bots db). bot_user_id b = msg_sender_id r \<and>
           bots db' = map (\<lambda>x. if bot_id x = bot_id b
                                then x\<lparr>bot_total_messages := bot_total_messages b + 1\<rparr>
                                else x) (bots db)"
  using assms
proof (induction bps)
  case Nil
  then show ?case by simp
next
  case (Cons bp bps)
  show ?case
  proof (cases "find (\<lambda>r. bot_user_id r = cp_user_id bp \<and> bot_is_active r \<and> bot_can_message r)
                  (bots db)")
    case None
    with Cons show ?thesis by simp
  next
    case (Some b)
    then have mem: "b \<in> set (bots db)"
      by (auto simp: find_Some_iff)
    from Some Cons.prems show ?thesis
      using mem by (auto simp: Let_def split: sum.splits)
  qed
qed

lemma trigger_result:
  assumes "trigger_immediate_bot_response responses rnd utcnow db cid mid = Inr (Some r, db')"
  shows "\<exists>b\<in>set (bots db). bot_user_id b = msg_sender_id r \<and>
           bots db' = map (\<lambda>x. if bot_id x = bot_id b
                                then x\<lparr>bot_total_messages := bot_total_messages b + 1\<rparr>
                                else x) (bots db)"
proof -
  from assms obtain tm bps where
    "respond_first responses rnd utcnow db cid tm bps = Inr (Some r, db')"
    by (auto simp: trigger_immediate_bot_response_def Let_def
             split: option.splits if_splits)
  then show ?thesis by (rule respond_first_result)
qed

lemma respond_to_messages_result:
  assumes "respond_to_messages responses rnd utcnow db b = Inr (True, db')"
  shows "bots db' = map (\<lambda>x. if bot_id x = bot_id b
                              then x\<lparr>bot_total_messages := bot_total_messages b + 1,
                                     bot_last_activity_at := Some (utcnow 2)\<rparr>
                              else x) (bots db)"
  using assms
  by (auto simp: respond_to_messages_def Let_def split: if_splits list.splits sum.splits)

lemma sample_trigger:
  "trigger_immediate_bot_response sample_responses 0 sample_clock sample_db 5 12 =
     Inr (Some \<lparr>msg_id = 13, msg_conversation_id = 5, msg_sender_id = 2,
                 msg_content = ''Good point!'', msg_created_at = 4000000000,
                 msg_is_deleted = False\<rparr>,
          sample_db\<lparr>messages := messages sample_db @
                        [\<lparr>msg_id = 13, msg_conversation_id = 5, msg_sender_id = 2,
                          msg_content = ''Good point!'', msg_created_at = 4000000000,
                          msg_is_deleted = False\<rparr>],
                    bot_activities := bot_activities sample_db @
                        [\<lparr>act_id = 4, act_bot_id = 7, act_activity_type = MESSAGE,
                          act_message_id = Some 13, act_success = True,
                          act_created_at = 4000000001\<rparr>],
                    bots := [sample_bot\<lparr>bot_total_messages := 5\<rparr>]\<rparr>)"
  by code_simp

lemma sample_respond:
  "respond_to_messages sample_responses 0 sample_clock sample_db sample_bot =
     Inr (True,
          sample_db\<lparr>messages := messages sample_db @
                        [\<lparr>msg_id = 13, msg_conversation_id = 5, msg_sender_id = 2,
                          msg_content = ''Good point!'', msg_created_at = 4000000001,
                          msg_is_deleted = False\<rparr>],
                    bot_activities := bot_activities sample_db @
                        [\<lparr>act_id = 4, act_bot_id = 7, act_activity_type = MESSAGE,
                          act_message_id = Some 13, act_success = True,
                          act_created_at = 4000000003\<rparr>],
                    bots := [sample_bot\<lparr>bot_total_messages := 5,
                                        bot_last_activity_at := Some 4000000002\<rparr>]\<rparr>)"
  by code_simp

text \<open>
  Claim C3. When \<^verbatim>\<open>trigger_immediate_bot_response\<close> returns a message, the row of the
  bot that sent it is the old row with \<^verbatim>\<open>total_messages\<close> one higher and every other
  column, \<^verbatim>\<open>last_activity_at\<close> among them, as before. When
  \<^verbatim>\<open>respond_to_messages\<close> returns true, the row of the bot is the old row with
  \<^verbatim>\<open>total_messages\<close> one higher and \<^verbatim>\<open>last_activity_at\<close> set to the clock read
  at that point. Bot rows have distinct primary keys.
\<close>

theorem response_paths_write:
  "(trigger_immediate_bot_response responses rnd utcnow db cid mid = Inr (Some r, db') \<and>
    distinct (map bot_id (bots db)) \<longrightarrow>
      (\<exists>b\<in>set (bots db). bot_user_id b = msg_sender_id r \<and>
         find (\<lambda>x. bot_id x = bot_id b) (bots db') =
           Some (b\<lparr>bot_total_messages := bot_total_messages b + 1\<rparr>)))
   \<and> (respond_to_messages responses rnd utcnow db sb = Inr (True, db'') \<and>
      sb \<in> set (bots db) \<and> distinct (map bot_id (bots db)) \<longrightarrow>
        find (\<lambda>x. bot_id x = bot_id sb) (bots db'') =
          Some (sb\<lparr>bot_total_messages := bot_total_messages sb + 1,
                   bot_last_activity_at := Some (utcnow 2)\<rparr>))"
proof (intro conjI impI)
  assume a: "trigger_immediate_bot_response responses rnd utcnow db cid mid = Inr (Some r, db') \<and>
    distinct (map bot_id (bots db))"
  then obtain b where b: "b \<in> set (bots db)" "bot_user_id b = msg_sender_id r"
    and upd: "bots db' = map (\<lambda>x. if bot_id x = bot_id b
                                then x\<lparr>bot_total_messages := bot_total_messages b + 1\<rparr>
                                else x) (bots db)"
    using trigger_result [of responses rnd utcnow db cid mid r db'] by blast
  from a b(1) have "bots db' = map (\<lambda>x. if bot_id x = bot_id b
                                then b\<lparr>bot_total_messages := bot_total_messages b + 1\<rparr>
                                else x) (bots db)"
    unfolding upd
    by (intro map_update_rows [of "bots db" b
          "\<lambda>x. x\<lparr>bot_total_messages := bot_total_messages b + 1\<rparr>"]) simp_all
  moreover have "find (\<lambda>x. bot_id x = bot_id b)
      (map (\<lambda>x. if bot_id x = bot_id b
                then b\<lparr>bot_total_messages := bot_total_messages b + 1\<rparr>
                else x) (bots db)) = Some (b\<lparr>bot_total_messages := bot_total_messages b + 1\<rparr>)"
    using a b(1)
    by (intro find_updated_row [of "bots db" b
          "\<lambda>x. x\<lparr>bot_total_messages := bot_total_messages x + 1\<rparr>", simplified]) simp_all
  ultimately show "\<exists>b\<in>set (bots db). bot_user_id b = msg_sender_id r \<and>
         find (\<lambda>x. bot_id x = bot_id b) (bots db') =
           Some (b\<lparr>bot_total_messages := bot_total_messages b + 1\<rparr>)"
    using b by auto
next
  assume a: "respond_to_messages responses rnd utcnow db sb = Inr (True, db'') \<and>
      sb \<in> set (bots db) \<and> distinct (map bot_id (bots db))"
  then have upd: "bots db'' = map (\<lambda>x. if bot_id x = bot_id sb
                              then x\<lparr>bot_total_messages := bot_total_messages sb + 1,
                                     bot_last_activity_at := Some (utcnow 2)\<rparr>
                              else x) (bots db)"
    using respond_to_messages_result [of responses rnd utcnow db sb db''] by blast
  from a have "bots db'' = map (\<lambda>x. if bot_id x = bot_id sb
                              then sb\<lparr>bot_total_messages := bot_total_messages sb + 1,
                                     bot_last_activity_at := Some (utcnow 2)\<rparr>
                              else x) (bots db)"
    unfolding upd
    by (intro map_update_rows [of "bots db" sb
          "\<lambda>x. x\<lparr>bot_total_messages := bot_total_messages sb + 1,
                  bot_last_activity_at := Some (utcnow 2)\<rparr>"]) simp_all
  moreover have "find (\<lambda>x. bot_id x = bot_id sb)
      (map (\<lambda>x. if bot_id x = bot_id sb
                then sb\<lparr>bot_total_messages := bot_total_messages sb + 1,
                        bot_last_activity_at := Some (utcnow 2)\<rparr>
                else x) (bots db)) =
      Some (sb\<lparr>bot_total_messages := bot_total_messages sb + 1,
               bot_last_activity_at := Some (utcnow 2)\<rparr>)"
    using a
    by (intro find_updated_row [of "bots db" sb
          "\<lambda>x. x\<lparr>bot_total_messages := bot_total_messages x + 1,
                  bot_last_activity_at := Some (utcnow 2)\<rparr>", simplified]) simp_all
  ultimately show "find (\<lambda>x. bot_id x = bot_id sb) (bots db'') =
          Some (sb\<lparr>bot_total_messages := bot_total_messages sb + 1,
                   bot_last_activity_at := Some (utcnow 2)\<rparr>)"
    by simp
qed

theorem response_paths_write_witness:
  "(\<exists>r db'. trigger_immediate_bot_response sample_responses 0 sample_clock sample_db 5 12 =
       Inr (Some r, db') \<and>
       find (\<lambda>x. bot_id x = 7) (bots db') =
         Some (sample_bot\<lparr>bot_total_messages := 5\<rparr>))
   \<and> (\<exists>db''. respond_to_messages sample_responses 0 sample_clock sample_db sample_bot =
       Inr (True, db'') \<and>
       find (\<lambda>x. bot_id x = 7) (bots db'') =
         Some (sample_bot\<lparr>bot_total_messages := 5, bot_last_activity_at := Some 4000000002\<rparr>))"
proof -
  have d: "distinct (map bot_id (bots sample_db))" "sample_bot \<in> set (bots sample_db)"
          "set (bots sample_db) = {sample_bot}"
    by (simp_all add: sample_db_def)
  have v: "bot_id sample_bot = 7" "bot_total_messages sample_bot = 4" "sample_clock 2 = 4000000002"
    by (simp_all add: sample_bot_def sample_clock_def)
  note w = response_paths_write [of sample_responses 0 sample_clock sample_db 5 12 _ _
      sample_bot, unfolded sample_trigger sample_respond]
  from w d v show ?thesis
    unfolding sample_trigger sample_respond by auto
qed

section \<open>Properties of the message service\<close>

lemma find_direct_match:
  "find_direct db a b = find (direct_match db a b) (conversations db)"
  unfolding find_direct_def direct_match_def by (rule refl)

lemma fold_max_ge: "a \<le> fold max ids (a::int)"
proof (induction ids arbitrary: a)
  case Nil
  show ?case by simp
next
  case (Cons x xs)
  have "a \<le> max x a" by simp
  also have "max x a \<le> fold max xs (max x a)" by (rule Cons.IH)
  finally show ?case by simp
qed

lemma fold_max_mem: "x \<in> set ids \<Longrightarrow> x \<le> fold max ids (a::int)"
proof (induction ids arbitrary: a)
  case Nil
  then show ?case by simp
next
  case (Cons y ys)
  show ?case
  proof (cases "x = y")
    case True
    have "x \<le> max y a" using True by simp
    also have "max y a \<le> fold max ys (max y a)" by (rule fold_max_ge)
    finally show ?thesis by simp
  next
    case False
    with Cons.prems have "x \<in> set ys" by simp
    then have "x \<le> fold max ys (max y a)" by (rule Cons.IH)
    then show ?thesis by simp
  qed
qed

lemma next_id_fresh: "next_id ids \<notin> set ids"
proof
  assume "next_id ids \<in> set ids"
  then have "next_id ids \<le> fold max ids 0" by (rule fold_max_mem)
  then show False by (simp add: next_id_def)
qed

lemma filter_all_of_length:
  "length (filter P xs) = length xs \<Longrightarrow> x \<in> set xs \<Longrightarrow> P x"
  using length_filter_less [of x xs P] by fastforce

lemma match_rows:
  "filter (\<lambda>p. cp_conversation_id p = cid \<and> cp_user_id p \<in> set [a, b] \<and> cp_is_active p) ps =
   filter (\<lambda>p. cp_user_id p \<in> set [a, b])
     (filter (\<lambda>p. cp_conversation_id p = cid \<and> cp_is_active p) ps)"
  by (induction ps) auto

lemma length_match:
  "length (filter (\<lambda>p. cp_conversation_id p = cid \<and> cp_user_id p \<in> set [a, b] \<and> cp_is_active p)
             (participants db)) =
   length (filter (\<lambda>u. u \<in> set [a, b]) (active_participant_ids db cid))"
  unfolding match_rows active_participant_ids_def filter_map
  by (simp add: comp_def)

lemma pair_count:
  assumes "distinct ids" and "length ids \<le> 2" and "a \<noteq> b"
  shows "length (filter (\<lambda>u. u \<in> set [a, b]) ids) = 2 \<longleftrightarrow> set ids = {a, b}"
proof
  assume two: "length (filter (\<lambda>u. u \<in> set [a, b]) ids) = 2"
  have "length (filter (\<lambda>u. u \<in> set [a, b]) ids) \<le> length ids"
    by (rule length_filter_le)
  with two assms(2) have len: "length ids = 2"
    and same: "length (filter (\<lambda>u. u \<in> set [a, b]) ids) = length ids"
    by simp_all
  have "\<And>x. x \<in> set ids \<Longrightarrow> x \<in> set [a, b]"
    using filter_all_of_length [OF same] .
  then have sub: "set ids \<subseteq> {a, b}" by auto
  have "card (set ids) = 2" using assms(1) len by (simp add: distinct_card)
  moreover have "card {a, b} = 2" using assms(3) by simp
  ultimately show "set ids = {a, b}"
    using sub by (intro card_subset_eq) simp_all
next
  assume eq: "set ids = {a, b}"
  then have "filter (\<lambda>u. u \<in> set [a, b]) ids = ids" by (intro filter_True) simp
  moreover have "length ids = card (set ids)" using assms(1) by (simp add: distinct_card)
  moreover have "card {a, b} = 2" using assms(3) by simp
  ultimately show "length (filter (\<lambda>u. u \<in> set [a, b]) ids) = 2" using eq by simp
qed

lemma direct_match_iff:
  assumes "direct_wf db" and "c \<in> set (conversations db)" and "a \<noteq> b"
  shows "direct_match db a b c \<longleftrightarrow>
           conv_type c = DIRECT \<and> set (active_participant_ids db (conv_id c)) = {a, b}"
proof (cases "conv_type c = DIRECT")
  case False
  then show ?thesis by (simp add: direct_match_def)
next
  case True
  with assms(1,2) have d: "distinct (active_participant_ids db (conv_id c))"
    and l: "length (active_participant_ids db (conv_id c)) \<le> 2"
    unfolding direct_wf_def by blast+
  from pair_count [OF d l assms(3)] True show ?thesis
    unfolding direct_match_def length_match by simp
qed

lemma direct_match_commute: "direct_match db b a = direct_match db a b"
proof
  fix c
  have "set [b, a] = set [a, b]" by auto
  then show "direct_match db b a c = direct_match db a b c"
    unfolding direct_match_def by simp
qed

lemma get_or_create_found:
  assumes "direct_wf db" and "a \<noteq> b" and "find_direct db a b = Some c"
  shows "get_or_create_direct_conversation db a b = (c, db)"
    and "get_or_create_direct_conversation db b a = (c, db)"
proof -
  from assms(3) have m: "direct_match db a b c" and mem: "c \<in> set (conversations db)"
    unfolding find_direct_match by (auto simp: find_Some_iff)
  from direct_match_iff [OF assms(1) mem assms(2)] m
  have v: "set (active_participant_ids db (conv_id c)) = {a, b}" by simp
  from assms(3) v show "get_or_create_direct_conversation db a b = (c, db)"
    by (simp add: get_or_create_direct_conversation_def)
  have "find_direct db b a = Some c"
    using assms(3) unfolding find_direct_match direct_match_commute [of db b a] .
  moreover have "{b, a} = {a, b}" by auto
  ultimately show "get_or_create_direct_conversation db b a = (c, db)"
    using v by (simp add: get_or_create_direct_conversation_def)
qed

lemma get_or_create_not_found:
  assumes "direct_wf db" and "a \<noteq> b" and "find_direct db a b = None"
  shows "get_or_create_direct_conversation db a b = create_direct db a b"
  using assms(3) by (simp add: get_or_create_direct_conversation_def)

lemma get_or_create_cases:
  assumes "direct_wf db" and "a \<noteq> b"
  shows "(\<exists>c. find_direct db a b = Some c \<and> get_or_create_direct_conversation db a b = (c, db))
       \<or> (find_direct db a b = None \<and>
          get_or_create_direct_conversation db a b = create_direct db a b)"
proof (cases "find_direct db a b")
  case None
  then show ?thesis using get_or_create_not_found [OF assms] by simp
next
  case (Some c)
  then show ?thesis using get_or_create_found(1) [OF assms] by simp
qed

lemma create_direct_tables:
  "conversations (snd (create_direct db a b)) = conversations db @ [fst (create_direct db a b)]"
  "participants (snd (create_direct db a b)) =
     participants db @
       [\<lparr>cp_id = next_id (map cp_id (participants db)),
         cp_conversation_id = next_id (map conv_id (conversations db)),
         cp_user_id = a, cp_is_active = True\<rparr>,
        \<lparr>cp_id = next_id (map cp_id (participants db)) + 1,
         cp_conversation_id = next_id (map conv_id (conversations db)),
         cp_user_id = b, cp_is_active = True\<rparr>]"
  "fst (create_direct db a b) =
     \<lparr>conv_id = next_id (map conv_id (conversations db)), conv_type = DIRECT,
      conv_created_by_id = Some a\<rparr>"
  by (simp_all add: create_direct_def Let_def)

lemma new_id_unused:
  "next_id (map conv_id (conversations db)) \<notin> conv_id ` set (conversations db)"
  using next_id_fresh [of "map conv_id (conversations db)"] by simp

lemma no_rows_of_new:
  assumes "direct_wf db"
  shows "filter (\<lambda>p. cp_conversation_id p = next_id (map conv_id (conversations db)) \<and> Q p)
           (participants db) = []"
proof -
  have "\<And>p. p \<in> set (participants db) \<Longrightarrow>
          cp_conversation_id p \<noteq> next_id (map conv_id (conversations db))"
    using assms new_id_unused [of db] unfolding direct_wf_def by metis
  then show ?thesis by (simp add: filter_empty_conv)
qed

lemma active_ids_old:
  assumes "cid \<noteq> next_id (map conv_id (conversations db))"
  shows "active_participant_ids (snd (create_direct db a b)) cid = active_participant_ids db cid"
  using assms by (simp add: active_participant_ids_def create_direct_tables(2))

lemma active_ids_new:
  assumes "direct_wf db"
  shows "active_participant_ids (snd (create_direct db a b))
           (next_id (map conv_id (conversations db))) = [a, b]"
  using no_rows_of_new [OF assms, of cp_is_active]
  by (simp add: active_participant_ids_def create_direct_tables(2))

lemma direct_match_old:
  assumes "conv_id c \<noteq> next_id (map conv_id (conversations db))"
  shows "direct_match (snd (create_direct db a b)) x y c = direct_match db x y c"
  using assms by (simp add: direct_match_def create_direct_tables(2))

lemma direct_match_new:
  assumes "direct_wf db" and "a \<noteq> b"
  shows "direct_match (snd (create_direct db a b)) a b (fst (create_direct db a b))"
proof -
  have "length (filter (\<lambda>u. u \<in> set [a, b])
          (active_participant_ids (snd (create_direct db a b))
             (next_id (map conv_id (conversations db))))) = 2"
    unfolding active_ids_new [OF assms(1)] by simp
  then show ?thesis
    unfolding direct_match_def length_match create_direct_tables(3) by simp
qed

lemma old_conv_id:
  "c \<in> set (conversations db) \<Longrightarrow> conv_id c \<noteq> next_id (map conv_id (conversations db))"
  using new_id_unused [of db] by (metis imageI)

lemma find_snoc:
  "find P (xs @ [x]) = (case find P xs of None \<Rightarrow> (if P x then Some x else None) | Some y \<Rightarrow> Some y)"
  by (induction xs) simp_all

lemma create_direct_wf:
  assumes "direct_wf db" and "a \<noteq> b"
  shows "direct_wf (snd (create_direct db a b))"
proof -
  let ?n = "next_id (map conv_id (conversations db))"
  let ?db1 = "snd (create_direct db a b)"
  have 1: "distinct (map conv_id (conversations ?db1))"
    using assms(1) new_id_unused [of db]
    by (simp add: create_direct_tables direct_wf_def)
  have 2: "\<forall>p\<in>set (participants ?db1). cp_conversation_id p \<in> conv_id ` set (conversations ?db1)"
    using assms(1) by (auto simp: create_direct_tables direct_wf_def)
  have 3: "\<forall>c\<in>set (conversations ?db1). conv_type c = DIRECT \<longrightarrow>
        distinct (active_participant_ids ?db1 (conv_id c)) \<and>
        length (active_participant_ids ?db1 (conv_id c)) \<le> 2"
  proof (intro ballI impI)
    fix c assume c: "c \<in> set (conversations ?db1)" and t: "conv_type c = DIRECT"
    show "distinct (active_participant_ids ?db1 (conv_id c)) \<and>
          length (active_participant_ids ?db1 (conv_id c)) \<le> 2"
    proof (cases "c \<in> set (conversations db)")
      case True
      then have "active_participant_ids ?db1 (conv_id c) = active_participant_ids db (conv_id c)"
        by (intro active_ids_old old_conv_id)
      with assms(1) True t show ?thesis unfolding direct_wf_def by simp
    next
      case False
      with c have "c = fst (create_direct db a b)" by (simp add: create_direct_tables(1))
      then have "conv_id c = ?n" by (simp add: create_direct_tables(3))
      then show ?thesis using active_ids_new [OF assms(1), of a b] assms(2) by simp
    qed
  qed
  from 1 2 3 show ?thesis unfolding direct_wf_def by blast
qed

lemma find_direct_after_create:
  assumes "direct_wf db" and "a \<noteq> b" and "find_direct db a b = None"
  shows "find_direct (snd (create_direct db a b)) a b = Some (fst (create_direct db a b))"
proof -
  let ?db1 = "snd (create_direct db a b)"
  have old: "\<And>c. c \<in> set (conversations db) \<Longrightarrow> \<not> direct_match ?db1 a b c"
  proof -
    fix c assume c: "c \<in> set (conversations db)"
    with assms(3) have "\<not> direct_match db a b c"
      unfolding find_direct_match by (simp add: find_None_iff)
    then show "\<not> direct_match ?db1 a b c"
      using direct_match_old [OF old_conv_id [OF c]] by simp
  qed
  then have "find (direct_match ?db1 a b) (conversations db) = None"
    by (simp add: find_None_iff)
  then show ?thesis
    unfolding find_direct_match create_direct_tables(1)
    using direct_match_new [OF assms(1,2)]
    by (simp add: find_snoc)
qed

lemma create_direct_unique:
  assumes wf: "direct_wf db" and neq: "a \<noteq> b" and none: "find_direct db a b = None"
    and u: "direct_unique db"
  shows "direct_unique (snd (create_direct db a b))"
proof -
  let ?n = "next_id (map conv_id (conversations db))"
  let ?new = "fst (create_direct db a b)"
  let ?db1 = "snd (create_direct db a b)"
  have new_id: "conv_id ?new = ?n" by (simp add: create_direct_tables(3))
  have new_ids: "active_participant_ids ?db1 (conv_id ?new) = [a, b]"
    unfolding new_id by (rule active_ids_new [OF wf])
  have old_ids: "\<And>c. c \<in> set (conversations db) \<Longrightarrow>
      active_participant_ids ?db1 (conv_id c) = active_participant_ids db (conv_id c)"
    by (intro active_ids_old old_conv_id)
  have no_pair: "\<And>c. c \<in> set (conversations db) \<Longrightarrow> conv_type c = DIRECT \<Longrightarrow>
      set (active_participant_ids db (conv_id c)) \<noteq> {a, b}"
  proof
    fix c assume c: "c \<in> set (conversations db)" and t: "conv_type c = DIRECT"
      and s: "set (active_participant_ids db (conv_id c)) = {a, b}"
    from direct_match_iff [OF wf c neq] t s have "direct_match db a b c" by simp
    moreover from none c have "\<not> direct_match db a b c"
      unfolding find_direct_match by (simp add: find_None_iff)
    ultimately show False by simp
  qed
  show ?thesis
    unfolding direct_unique_def
  proof (intro ballI impI)
    fix c c'
    assume c: "c \<in> set (conversations ?db1)" and c': "c' \<in> set (conversations ?db1)"
      and h: "conv_type c = DIRECT \<and> conv_type c' = DIRECT \<and>
        length (active_participant_ids ?db1 (conv_id c)) = 2 \<and>
        length (active_participant_ids ?db1 (conv_id c')) = 2 \<and>
        set (active_participant_ids ?db1 (conv_id c)) =
          set (active_participant_ids ?db1 (conv_id c'))"
    from c have c_cases: "c \<in> set (conversations db) \<or> c = ?new"
      by (auto simp: create_direct_tables(1))
    from c' have c'_cases: "c' \<in> set (conversations db) \<or> c' = ?new"
      by (auto simp: create_direct_tables(1))
    show "c = c'"
    proof (cases "c = ?new")
      case cn: True
      show ?thesis
      proof (cases "c' = ?new")
        case True
        with cn show ?thesis by simp
      next
        case False
        with c'_cases have o: "c' \<in> set (conversations db)" by simp
        from h cn new_ids old_ids [OF o]
        have "set (active_participant_ids db (conv_id c')) = {a, b}" by auto
        with no_pair [OF o] h show ?thesis by simp
      qed
    next
      case cn: False
      with c_cases have o: "c \<in> set (conversations db)" by simp
      show ?thesis
      proof (cases "c' = ?new")
        case True
        from h True new_ids old_ids [OF o]
        have "set (active_participant_ids db (conv_id c)) = {a, b}" by auto
        with no_pair [OF o] h show ?thesis by simp
      next
        case False
        with c'_cases have o': "c' \<in> set (conversations db)" by simp
        from h old_ids [OF o] old_ids [OF o'] u o o' show ?thesis
          unfolding direct_unique_def by simp
      qed
    qed
  qed
qed

lemma empty_db_invariants:
  "direct_wf \<lparr>users = [], conversations = [], participants = [], messages = [], bots = [],
              bot_activities = []\<rparr>
   \<and> direct_unique \<lparr>users = [], conversations = [], participants = [], messages = [],
                    bots = [], bot_activities = []\<rparr>"
  by (simp add: direct_wf_def direct_unique_def)

lemma sample_db_wf: "direct_wf sample_db"
  by code_simp

text \<open>
  Claim C8. In a database that keeps the invariants of the conversation tables, for two
  different users a call of \<^verbatim>\<open>get_or_create_direct_conversation\<close> followed by a
  second call, with the arguments in the same or in the other order, returns the same
  conversation and the second call writes nothing. The conversation returned is a direct one
  whose active participants are the two users; the invariants still hold afterwards, and if no
  two direct conversations shared a pair of active participants before, none do after.
\<close>

theorem direct_conversation_dedup:
  assumes wf: "direct_wf db" and neq: "a \<noteq> b"
    and first: "get_or_create_direct_conversation db a b = (c, db1)"
  shows "get_or_create_direct_conversation db1 a b = (c, db1)
       \<and> get_or_create_direct_conversation db1 b a = (c, db1)
       \<and> c \<in> set (conversations db1) \<and> conv_type c = DIRECT
       \<and> set (active_participant_ids db1 (conv_id c)) = {a, b}
       \<and> direct_wf db1
       \<and> (direct_unique db \<longrightarrow> direct_unique db1)"
proof -
  have found: "find_direct db1 a b = Some c \<and> direct_wf db1 \<and>
               (direct_unique db \<longrightarrow> direct_unique db1)"
  proof (cases "find_direct db a b")
    case (Some c0)
    from get_or_create_found(1) [OF wf neq Some] first have "c0 = c" "db = db1" by simp_all
    with Some wf show ?thesis by simp
  next
    case None
    from get_or_create_not_found [OF wf neq None] first
    have cr: "create_direct db a b = (c, db1)" by simp
    then have c: "c = fst (create_direct db a b)" and d: "db1 = snd (create_direct db a b)"
      by simp_all
    show ?thesis
      unfolding c d
      using find_direct_after_create [OF wf neq None] create_direct_wf [OF wf neq]
        create_direct_unique [OF wf neq None]
      by blast
  qed
  then have f: "find_direct db1 a b = Some c" and wf1: "direct_wf db1" by simp_all
  from f have m: "direct_match db1 a b c" and mem: "c \<in> set (conversations db1)"
    unfolding find_direct_match by (auto simp: find_Some_iff)
  from direct_match_iff [OF wf1 mem neq] m
  have t: "conv_type c = DIRECT" and s: "set (active_participant_ids db1 (conv_id c)) = {a, b}"
    by simp_all
  from get_or_create_found [OF wf1 neq f] mem t s found show ?thesis by simp
qed

theorem direct_conversation_dedup_witness:
  "get_or_create_direct_conversation
     (snd (get_or_create_direct_conversation sample_db 1 3)) 3 1 =
   get_or_create_direct_conversation sample_db 1 3
   \<and> get_or_create_direct_conversation
     (snd (get_or_create_direct_conversation sample_db 1 2)) 2 1 =
   get_or_create_direct_conversation sample_db 1 2
   \<and> direct_wf (snd (get_or_create_direct_conversation sample_db 1 3))"
proof -
  have n: "(1::int) \<noteq> 3" "(1::int) \<noteq> 2" by simp_all
  have p: "\<And>x y. get_or_create_direct_conversation sample_db x y =
      (fst (get_or_create_direct_conversation sample_db x y),
       snd (get_or_create_direct_conversation sample_db x y))"
    by simp
  from direct_conversation_dedup [OF sample_db_wf n(1) p]
       direct_conversation_dedup [OF sample_db_wf n(2) p]
  show ?thesis by simp
qed

end
